theory Spec2Isabelle
  imports Main "HOL-Library.Char_ord" "HOL-Library.List_Lexorder" "HOL-Library.Multiset"
    "HOL-Library.Sublist"
begin

section \<open>JavaScript values and the JSON codec\<close>

text \<open>
  The cache service stores \<^verbatim>\<open>JSON.stringify(data)\<close> and returns
  \<^verbatim>\<open>JSON.parse(data)\<close>. The values that travel through it are JavaScript values:
  \<^verbatim>\<open>IProperty\<close> declares \<^verbatim>\<open>availableFrom: Date\<close>, optional members may be
  \<^verbatim>\<open>undefined\<close>. A \<open>JDate\<close> carries the text that \<^verbatim>\<open>Date.prototype.toJSON\<close>
  gives for it (the ISO form). Numbers are the integers; a number token with a fraction or an
  exponent is kept as the text of the token (\<open>JFloat\<close>), floating-point arithmetic is not
  computed. An object is the list of its own enumerable properties in enumeration order.
  Strings are byte strings (UTF-8).
\<close>

datatype jsval =
    JUndefined
  | JNull
  | JBool bool
  | JNum int
  | JFloat string
  | JStr string
  | JDate string
  | JArr "jsval list"
  | JObj "(string \<times> jsval) list"

text \<open>Truthiness, as \<^verbatim>\<open>if (x)\<close>, \<^verbatim>\<open>!x\<close> and \<^verbatim>\<open>x ? a : b\<close> test it.\<close>

fun truthy :: "jsval \<Rightarrow> bool" where
  "truthy JUndefined = False"
| "truthy JNull = False"
| "truthy (JBool b) = b"
| "truthy (JNum n) = (n \<noteq> 0)"
| "truthy (JFloat s) = True"
| "truthy (JStr s) = (s \<noteq> [])"
| "truthy (JDate s) = True"
| "truthy (JArr xs) = True"
| "truthy (JObj kvs) = True"

text \<open>Property read \<^verbatim>\<open>x.k\<close> on an object of the model; \<^verbatim>\<open>undefined\<close> when absent.\<close>

fun js_get :: "jsval \<Rightarrow> string \<Rightarrow> jsval" where
  "js_get (JObj kvs) k = (case map_of kvs k of None \<Rightarrow> JUndefined | Some v \<Rightarrow> v)"
| "js_get v k = JUndefined"

text \<open>\<^verbatim>\<open>a || b\<close>\<close>

definition js_or :: "jsval \<Rightarrow> jsval \<Rightarrow> jsval" where
  "js_or a b = (if truthy a then a else b)"

subsection \<open>Property order of objects\<close>

text \<open>
  An ordinary object enumerates its array-index keys first, in ascending numeric order, and
  then its other string keys in creation order. \<open>is_index\<close> recognises the canonical
  numeric strings below \<open>2^32 - 1\<close>.
\<close>

definition is_digit :: "char \<Rightarrow> bool" where
  "is_digit c = (CHR ''0'' \<le> c \<and> c \<le> CHR ''9'')"

definition digit_val :: "char \<Rightarrow> int" where
  "digit_val c = int (of_char c) - 48"

definition int_of_digits :: "string \<Rightarrow> int" where
  "int_of_digits s = foldl (\<lambda>n c. 10 * n + digit_val c) 0 s"

definition is_index :: "string \<Rightarrow> bool" where
  "is_index k = (k \<noteq> [] \<and> list_all is_digit k \<and> (k = ''0'' \<or> hd k \<noteq> CHR ''0'')
     \<and> int_of_digits k < 4294967295)"

fun insert_index :: "string \<Rightarrow> jsval \<Rightarrow> (string \<times> jsval) list \<Rightarrow> (string \<times> jsval) list" where
  "insert_index k v [] = [(k, v)]"
| "insert_index k v ((k', v') # kvs) =
     (if is_index k' \<and> int_of_digits k' < int_of_digits k
      then (k', v') # insert_index k v kvs
      else (k, v) # (k', v') # kvs)"

fun obj_replace :: "string \<Rightarrow> jsval \<Rightarrow> (string \<times> jsval) list \<Rightarrow> (string \<times> jsval) list" where
  "obj_replace k v [] = []"
| "obj_replace k v ((k', v') # kvs) =
     (if k' = k then (k, v) # kvs else (k', v') # obj_replace k v kvs)"

text \<open>
  \<open>obj_define\<close> is CreateDataProperty (what \<^verbatim>\<open>JSON.parse\<close> and an object literal
  do): an existing key keeps its place and takes the new value, a new key is placed by the
  enumeration order. \<open>obj_assign\<close> is the assignment \<^verbatim>\<open>obj[key] = v\<close> on a plain
  object: the same, except that the key \<^verbatim>\<open>__proto__\<close> reaches the prototype setter and
  creates no own property.
\<close>

definition obj_define :: "(string \<times> jsval) list \<Rightarrow> string \<Rightarrow> jsval \<Rightarrow> (string \<times> jsval) list" where
  "obj_define kvs k v =
     (if k \<in> fst ` set kvs then obj_replace k v kvs
      else if is_index k then insert_index k v kvs
      else kvs @ [(k, v)])"

definition obj_assign :: "(string \<times> jsval) list \<Rightarrow> string \<Rightarrow> jsval \<Rightarrow> (string \<times> jsval) list" where
  "obj_assign kvs k v = (if k = ''__proto__'' then kvs else obj_define kvs k v)"

subsection \<open>\<^verbatim>\<open>JSON.stringify\<close>\<close>

definition quote_c :: char where "quote_c = CHR 0x22"
definition backslash_c :: char where "backslash_c = CHR 0x5C"

definition hex_digit :: "nat \<Rightarrow> char" where
  "hex_digit n = (if n < 10 then char_of (48 + n) else char_of (87 + n))"

definition escape_char :: "char \<Rightarrow> string" where
  "escape_char c =
     (if c = quote_c then [backslash_c, quote_c]
      else if c = backslash_c then [backslash_c, backslash_c]
      else if c = CHR 0x08 then [backslash_c, CHR ''b'']
      else if c = CHR 0x09 then [backslash_c, CHR ''t'']
      else if c = CHR 0x0A then [backslash_c, CHR ''n'']
      else if c = CHR 0x0C then [backslash_c, CHR ''f'']
      else if c = CHR 0x0D then [backslash_c, CHR ''r'']
      else if (of_char c :: nat) < 32
        then [backslash_c, CHR ''u'', CHR ''0'', CHR ''0'',
              hex_digit (of_char c div 16), hex_digit (of_char c mod 16)]
      else [c])"

definition quote_string :: "string \<Rightarrow> string" where
  "quote_string s = quote_c # concat (map escape_char s) @ [quote_c]"

fun show_nat :: "nat \<Rightarrow> string" where
  "show_nat n = (if n < 10 then [char_of (48 + n)] else show_nat (n div 10) @ [char_of (48 + n mod 10)])"

declare show_nat.simps [simp del]

definition show_int :: "int \<Rightarrow> string" where
  "show_int i = (if i < 0 then CHR ''-'' # show_nat (nat (- i)) else show_nat (nat i))"

text \<open>
  The serialisation of a value. In an array \<^verbatim>\<open>undefined\<close> is written \<^verbatim>\<open>null\<close>; in
  an object a member whose value is \<^verbatim>\<open>undefined\<close> is left out; a Date is written as the
  string its \<^verbatim>\<open>toJSON\<close> gives. \<open>stringify_elems\<close> and \<open>stringify_members\<close> write
  the items that follow the first one, up to and including the closing bracket.
\<close>

fun stringify_val :: "jsval \<Rightarrow> string"
  and stringify_elems :: "jsval list \<Rightarrow> string"
  and stringify_members :: "bool \<Rightarrow> (string \<times> jsval) list \<Rightarrow> string"
where
  "stringify_val JUndefined = ''null''"
| "stringify_val JNull = ''null''"
| "stringify_val (JBool b) = (if b then ''true'' else ''false'')"
| "stringify_val (JNum n) = show_int n"
| "stringify_val (JFloat s) = s"
| "stringify_val (JStr s) = quote_string s"
| "stringify_val (JDate s) = quote_string s"
| "stringify_val (JArr []) = ''[]''"
| "stringify_val (JArr (x # xs)) = CHR ''['' # stringify_val x @ stringify_elems xs"
| "stringify_val (JObj kvs) = CHR ''{'' # stringify_members True kvs"
| "stringify_elems [] = '']''"
| "stringify_elems (x # xs) = CHR '','' # stringify_val x @ stringify_elems xs"
| "stringify_members first [] = ''}''"
| "stringify_members first ((k, v) # kvs) =
     (if v = JUndefined then stringify_members first kvs
      else (if first then [] else '','') @ quote_string k @ CHR '':'' # stringify_val v
           @ stringify_members False kvs)"

text \<open>\<^verbatim>\<open>JSON.stringify(v)\<close>: \<^verbatim>\<open>undefined\<close> at the top has no serialisation.\<close>

definition JSON_stringify :: "jsval \<Rightarrow> string option" where
  "JSON_stringify v = (if v = JUndefined then None else Some (stringify_val v))"

subsection \<open>\<^verbatim>\<open>JSON.parse\<close>\<close>

text \<open>
  A recursive-descent reader of the JSON grammar; \<open>None\<close> is the \<^verbatim>\<open>SyntaxError\<close>
  that \<^verbatim>\<open>JSON.parse\<close> throws. Every call on a nested value consumes one unit of fuel,
  and \<open>JSON_parse\<close> starts with more fuel than the text has characters.
\<close>

definition is_ws :: "char \<Rightarrow> bool" where
  "is_ws c = (c = CHR '' '' \<or> c = CHR 0x09 \<or> c = CHR 0x0A \<or> c = CHR 0x0D)"

definition skip_ws :: "string \<Rightarrow> string" where
  "skip_ws = dropWhile is_ws"

definition hex_val :: "char \<Rightarrow> nat option" where
  "hex_val c =
     (if is_digit c then Some (of_char c - 48)
      else if CHR ''a'' \<le> c \<and> c \<le> CHR ''f'' then Some (of_char c - 87)
      else if CHR ''A'' \<le> c \<and> c \<le> CHR ''F'' then Some (of_char c - 55)
      else None)"

definition hex4 :: "char \<Rightarrow> char \<Rightarrow> char \<Rightarrow> char \<Rightarrow> nat option" where
  "hex4 a b c d =
     (case (hex_val a, hex_val b, hex_val c, hex_val d) of
        (Some x, Some y, Some z, Some w) \<Rightarrow> Some (((x * 16 + y) * 16 + z) * 16 + w)
      | _ \<Rightarrow> None)"

text \<open>The bytes of a \<^verbatim>\<open>\uXXXX\<close> code unit (each unit on its own).\<close>

definition utf8 :: "nat \<Rightarrow> string" where
  "utf8 n =
     (if n < 128 then [char_of n]
      else if n < 2048 then [char_of (192 + n div 64), char_of (128 + n mod 64)]
      else [char_of (224 + n div 4096), char_of (128 + (n div 64) mod 64), char_of (128 + n mod 64)])"

definition unescape :: "char \<Rightarrow> char option" where
  "unescape e =
     (if e = quote_c then Some quote_c
      else if e = backslash_c then Some backslash_c
      else if e = CHR ''/'' then Some (CHR ''/'')
      else if e = CHR ''b'' then Some (CHR 0x08)
      else if e = CHR ''f'' then Some (CHR 0x0C)
      else if e = CHR ''n'' then Some (CHR 0x0A)
      else if e = CHR ''r'' then Some (CHR 0x0D)
      else if e = CHR ''t'' then Some (CHR 0x09)
      else None)"

text \<open>The characters of a string after its opening quote, up to the closing one.\<close>

fun parse_chars :: "string \<Rightarrow> (string \<times> string) option" where
  "parse_chars [] = None"
| "parse_chars (c # cs) =
     (if c = quote_c then Some ([], cs)
      else if c = backslash_c then
        (case cs of
           [] \<Rightarrow> None
         | e # es \<Rightarrow>
             if e = CHR ''u'' then
               (case es of
                  a # b # c' # d # rest \<Rightarrow>
                    (case hex4 a b c' d of
                       None \<Rightarrow> None
                     | Some n \<Rightarrow>
                         (case parse_chars rest of
                            None \<Rightarrow> None
                          | Some (s, r) \<Rightarrow> Some (utf8 n @ s, r)))
                | _ \<Rightarrow> None)
             else
               (case unescape e of
                  None \<Rightarrow> None
                | Some x \<Rightarrow>
                    (case parse_chars es of
                       None \<Rightarrow> None
                     | Some (s, r) \<Rightarrow> Some (x # s, r))))
      else if (of_char c :: nat) < 32 then None
      else (case parse_chars cs of
              None \<Rightarrow> None
            | Some (s, r) \<Rightarrow> Some (c # s, r)))"

definition parse_frac :: "string \<Rightarrow> (string \<times> string) option" where
  "parse_frac s =
     (case s of
        [] \<Rightarrow> Some ([], [])
      | c # cs \<Rightarrow>
          if c = CHR ''.'' then
            (if takeWhile is_digit cs = [] then None
             else Some (c # takeWhile is_digit cs, dropWhile is_digit cs))
          else Some ([], s))"

definition parse_sign :: "string \<Rightarrow> string \<times> string" where
  "parse_sign s =
     (case s of
        [] \<Rightarrow> ([], [])
      | d # ds \<Rightarrow> if d = CHR ''+'' \<or> d = CHR ''-'' then ([d], ds) else ([], s))"

definition parse_exp :: "string \<Rightarrow> (string \<times> string) option" where
  "parse_exp s =
     (case s of
        [] \<Rightarrow> Some ([], [])
      | c # cs \<Rightarrow>
          if c = CHR ''e'' \<or> c = CHR ''E'' then
            (case parse_sign cs of
               (sg, cs') \<Rightarrow>
                 if takeWhile is_digit cs' = [] then None
                 else Some (c # sg @ takeWhile is_digit cs', dropWhile is_digit cs'))
          else Some ([], s))"

text \<open>
  A number token: an integer token gives \<open>JNum\<close>; with a fraction or an exponent the token
  gives zero when all digits of its mantissa are zero, and else a \<open>JFloat\<close>.
\<close>

definition parse_unsigned :: "bool \<Rightarrow> string \<Rightarrow> (jsval \<times> string) option" where
  "parse_unsigned neg s1 =
     (let ds = takeWhile is_digit s1 in
      if ds = [] \<or> (1 < length ds \<and> hd ds = CHR ''0'') then None
      else
        (case parse_frac (dropWhile is_digit s1) of
           None \<Rightarrow> None
         | Some (fs, s3) \<Rightarrow>
             (case parse_exp s3 of
                None \<Rightarrow> None
              | Some (es, s4) \<Rightarrow>
                  if fs = [] \<and> es = [] then
                    Some (JNum (if neg then - int_of_digits ds else int_of_digits ds), s4)
                  else if list_all (\<lambda>c. c = CHR ''0'') (ds @ filter is_digit fs) then
                    Some (JNum 0, s4)
                  else Some (JFloat ((if neg then ''-'' else []) @ ds @ fs @ es), s4))))"

definition parse_number :: "string \<Rightarrow> (jsval \<times> string) option" where
  "parse_number s =
     (case s of
        [] \<Rightarrow> None
      | c # cs \<Rightarrow> if c = CHR ''-'' then parse_unsigned True cs else parse_unsigned False s)"

definition build_object :: "(string \<times> jsval) list \<Rightarrow> jsval" where
  "build_object kvs = JObj (foldl (\<lambda>obj kv. obj_define obj (fst kv) (snd kv)) [] kvs)"

fun parse_value :: "nat \<Rightarrow> string \<Rightarrow> (jsval \<times> string) option"
  and parse_elems :: "nat \<Rightarrow> string \<Rightarrow> (jsval list \<times> string) option"
  and parse_member :: "nat \<Rightarrow> string \<Rightarrow> ((string \<times> jsval) \<times> string) option"
  and parse_members :: "nat \<Rightarrow> string \<Rightarrow> ((string \<times> jsval) list \<times> string) option"
where
  "parse_value 0 s = None"
| "parse_value (Suc n) s =
     (case skip_ws s of
        [] \<Rightarrow> None
      | c # cs \<Rightarrow>
          if c = CHR ''{'' then
            (case skip_ws cs of
               [] \<Rightarrow> None
             | d # ds \<Rightarrow>
                 if d = CHR ''}'' then Some (JObj [], ds)
                 else
                   (case parse_member n (d # ds) of
                      None \<Rightarrow> None
                    | Some (kv, r) \<Rightarrow>
                        (case parse_members n r of
                           None \<Rightarrow> None
                         | Some (kvs, r') \<Rightarrow> Some (build_object (kv # kvs), r'))))
          else if c = CHR ''['' then
            (case skip_ws cs of
               [] \<Rightarrow> None
             | d # ds \<Rightarrow>
                 if d = CHR '']'' then Some (JArr [], ds)
                 else
                   (case parse_value n (d # ds) of
                      None \<Rightarrow> None
                    | Some (v, r) \<Rightarrow>
                        (case parse_elems n r of
                           None \<Rightarrow> None
                         | Some (vs, r') \<Rightarrow> Some (JArr (v # vs), r'))))
          else if c = quote_c then
            (case parse_chars cs of
               None \<Rightarrow> None
             | Some (str, r) \<Rightarrow> Some (JStr str, r))
          else if take 4 (c # cs) = ''null'' then Some (JNull, drop 4 (c # cs))
          else if take 4 (c # cs) = ''true'' then Some (JBool True, drop 4 (c # cs))
          else if take 5 (c # cs) = ''false'' then Some (JBool False, drop 5 (c # cs))
          else parse_number (c # cs))"
| "parse_elems 0 s = None"
| "parse_elems (Suc n) s =
     (case skip_ws s of
        [] \<Rightarrow> None
      | c # cs \<Rightarrow>
          if c = CHR '']'' then Some ([], cs)
          else if c = CHR '','' then
            (case parse_value n cs of
               None \<Rightarrow> None
             | Some (v, r) \<Rightarrow>
                 (case parse_elems n r of
                    None \<Rightarrow> None
                  | Some (vs, r') \<Rightarrow> Some (v # vs, r')))
          else None)"
| "parse_member 0 s = None"
| "parse_member (Suc n) s =
     (case skip_ws s of
        [] \<Rightarrow> None
      | c # cs \<Rightarrow>
          if c = quote_c then
            (case parse_chars cs of
               None \<Rightarrow> None
             | Some (k, r) \<Rightarrow>
                 (case skip_ws r of
                    [] \<Rightarrow> None
                  | d # ds \<Rightarrow>
                      if d = CHR '':'' then
                        (case parse_value n ds of
                           None \<Rightarrow> None
                         | Some (v, r') \<Rightarrow> Some ((k, v), r'))
                      else None))
          else None)"
| "parse_members 0 s = None"
| "parse_members (Suc n) s =
     (case skip_ws s of
        [] \<Rightarrow> None
      | c # cs \<Rightarrow>
          if c = CHR ''}'' then Some ([], cs)
          else if c = CHR '','' then
            (case parse_member n cs of
               None \<Rightarrow> None
             | Some (kv, r) \<Rightarrow>
                 (case parse_members n r of
                    None \<Rightarrow> None
                  | Some (kvs, r') \<Rightarrow> Some (kv # kvs, r')))
          else None)"

text \<open>\<^verbatim>\<open>JSON.parse(text)\<close>: one value, then only white space.\<close>

definition JSON_parse :: "string \<Rightarrow> jsval option" where
  "JSON_parse s =
     (case parse_value (2 * length s + 2) s of
        None \<Rightarrow> None
      | Some (v, r) \<Rightarrow> if skip_ws r = [] then Some v else None)"

subsection \<open>JSON-shaped values and the image of a value under the codec\<close>

text \<open>
  The keys of an object of the model are in enumeration order (\<open>obj_ordered\<close>): distinct,
  array-index keys first in ascending order. \<open>json_plain\<close> holds of the values that JSON can
  express as they are: no \<^verbatim>\<open>undefined\<close>, no Date. \<open>js_wf\<close> holds of the values of the
  model whose numbers are integers and whose objects are in enumeration order, and
  \<open>encodable\<close> of those among them that \<^verbatim>\<open>JSON.stringify\<close> gives a text for.
  \<open>json_image\<close> is the value that the text of a value denotes: a Date has become its ISO
  string, an \<^verbatim>\<open>undefined\<close> array element \<^verbatim>\<open>null\<close>, and a member whose value is
  \<^verbatim>\<open>undefined\<close> is gone. \<open>roundtrip\<close> is \<^verbatim>\<open>JSON.parse(JSON.stringify(v))\<close>.
\<close>

definition key_before :: "string \<Rightarrow> string \<Rightarrow> bool" where
  "key_before a b =
     (if is_index a then (is_index b \<longrightarrow> int_of_digits a < int_of_digits b) else \<not> is_index b)"

definition obj_ordered :: "(string \<times> jsval) list \<Rightarrow> bool" where
  "obj_ordered kvs = (distinct (map fst kvs) \<and> sorted_wrt key_before (map fst kvs))"

fun json_plain :: "jsval \<Rightarrow> bool" where
  "json_plain JUndefined = False"
| "json_plain JNull = True"
| "json_plain (JBool b) = True"
| "json_plain (JNum n) = True"
| "json_plain (JFloat s) = False"
| "json_plain (JStr s) = True"
| "json_plain (JDate s) = False"
| "json_plain (JArr xs) = list_all json_plain xs"
| "json_plain (JObj kvs) = (obj_ordered kvs \<and> list_all (\<lambda>kv. json_plain (snd kv)) kvs)"

fun js_wf :: "jsval \<Rightarrow> bool" where
  "js_wf (JFloat s) = False"
| "js_wf (JArr xs) = list_all js_wf xs"
| "js_wf (JObj kvs) = (obj_ordered kvs \<and> list_all (\<lambda>kv. js_wf (snd kv)) kvs)"
| "js_wf v = True"

fun json_image :: "jsval \<Rightarrow> jsval" where
  "json_image JUndefined = JNull"
| "json_image (JDate s) = JStr s"
| "json_image (JArr xs) = JArr (map json_image xs)"
| "json_image (JObj kvs) =
     JObj (map (\<lambda>kv. (fst kv, json_image (snd kv))) (filter (\<lambda>kv. snd kv \<noteq> JUndefined) kvs))"
| "json_image v = v"

definition encodable :: "jsval \<Rightarrow> bool" where
  "encodable v = (v \<noteq> JUndefined \<and> js_wf v)"

definition roundtrip :: "jsval \<Rightarrow> jsval option" where
  "roundtrip v = Option.bind (JSON_stringify v) JSON_parse"

section \<open>The Redis client\<close>

text \<open>
  \<^verbatim>\<open>redisClient.getClient()\<close> returns the field \<^verbatim>\<open>client\<close>, which is \<^verbatim>\<open>null\<close>
  until \<^verbatim>\<open>connect\<close> has built a client. A client that is not ready rejects its commands
  (after the retries of the transport); the rejection is the exception that the
  \<^verbatim>\<open>await\<close> raises. The keyspace maps a key to the value and the expiry in seconds that
  \<^verbatim>\<open>SETEX\<close> gave it; every statement below is about the time before expiry.
\<close>

datatype js_error = ConnectionError | ReplyError | SyntaxError

datatype conn_status = Ready | Down

record redis_entry =
  payload :: string
  ttl :: nat

record Redis =
  status :: conn_status
  entries :: "(string \<times> redis_entry) list"

subsection \<open>Glob-style patterns of \<^verbatim>\<open>KEYS\<close>\<close>

text \<open>
  Modelled from the documented patterns of the Redis command \<^verbatim>\<open>KEYS\<close>, whose matcher is
  part of the server: \<^verbatim>\<open>*\<close> matches any run of characters, \<^verbatim>\<open>?\<close> one character,
  \<^verbatim>\<open>[ae]\<close>, \<^verbatim>\<open>[^e]\<close> and \<^verbatim>\<open>[a-b]\<close> one character of a class, and a backslash
  takes the next character literally.
\<close>

definition or_fst :: "bool \<Rightarrow> bool \<times> string \<Rightarrow> bool \<times> string" where
  "or_fst b x = (b \<or> fst x, snd x)"

fun class_items :: "string \<Rightarrow> char \<Rightarrow> bool \<times> string" where
  "class_items [] c = (False, [])"
| "class_items [p] c = (if p = CHR '']'' then (False, []) else (p = c, []))"
| "class_items (p # q # qs) c =
     (if p = backslash_c then or_fst (q = c) (class_items qs c)
      else if p = CHR '']'' then (False, q # qs)
      else if q = CHR ''-'' then
        (case qs of
           [] \<Rightarrow> or_fst (p = c) (class_items (q # qs) c)
         | e # rs \<Rightarrow> or_fst (min p e \<le> c \<and> c \<le> max p e) (class_items rs c))
      else or_fst (p = c) (class_items (q # qs) c))"

lemma snd_or_fst [simp]: "snd (or_fst b x) = snd x"
  by (simp add: or_fst_def)

lemma class_items_length: "length (snd (class_items ps c)) \<le> length ps"
proof (induction ps c rule: class_items.induct)
  case (1 c)
  show ?case by simp
next
  case (2 p c)
  show ?case by simp
next
  case (3 p q qs c)
  show ?case
  proof (cases qs)
    case Nil
    with 3 show ?thesis by simp
  next
    case (Cons e rs)
    from 3(1) have a: "p = backslash_c \<Longrightarrow> length (snd (class_items qs c)) \<le> length qs" .
    from 3(3) Cons have b: "p \<noteq> backslash_c \<Longrightarrow> p \<noteq> CHR '']'' \<Longrightarrow> q = CHR ''-'' \<Longrightarrow> length (snd (class_items rs c)) \<le> length rs"
      by simp
    from 3(4) have d: "p \<noteq> backslash_c \<Longrightarrow> p \<noteq> CHR '']'' \<Longrightarrow> q \<noteq> CHR ''-'' \<Longrightarrow> length (snd (class_items (q # qs) c)) \<le> length (q # qs)" .
    show ?thesis
      using a b d Cons by (cases "p = backslash_c"; cases "p = CHR '']''"; cases "q = CHR ''-''") auto
  qed
qed


definition class_match :: "string \<Rightarrow> char \<Rightarrow> bool \<times> string" where
  "class_match ps c =
     (case ps of
        [] \<Rightarrow> class_items ps c
      | q # qs \<Rightarrow>
          if q = CHR ''^'' then (case class_items qs c of (m, r) \<Rightarrow> (\<not> m, r))
          else class_items ps c)"

lemma class_match_length: "length (snd (class_match ps c)) \<le> length ps"
proof (cases ps)
  case Nil
  then show ?thesis by (simp add: class_match_def)
next
  case (Cons q qs)
  have "length (snd (class_items qs c)) \<le> length qs" by (rule class_items_length)
  moreover have "length (snd (class_items ps c)) \<le> length ps" by (rule class_items_length)
  ultimately show ?thesis using Cons
    by (cases "class_items qs c") (simp add: class_match_def)
qed

function glob_match :: "string \<Rightarrow> string \<Rightarrow> bool" where
  "glob_match [] s = (s = [])"
| "glob_match (p # ps) [] = (p = CHR ''*'' \<and> glob_match ps [])"
| "glob_match (p # ps) (c # cs) =
     (if p = CHR ''*'' then glob_match ps (c # cs) \<or> glob_match (p # ps) cs
      else if p = CHR ''?'' then glob_match ps cs
      else if p = CHR ''['' then fst (class_match ps c) \<and> glob_match (snd (class_match ps c)) cs
      else if p = backslash_c then
        (case ps of
           [] \<Rightarrow> p = c \<and> glob_match [] cs
         | q # qs \<Rightarrow> q = c \<and> glob_match qs cs)
      else p = c \<and> glob_match ps cs)"
  by pat_completeness auto
termination
proof (relation "measure (\<lambda>(p, s). length p + length s)", goal_cases)
  case (6 p ps c cs)
  have "length (snd (class_match ps c)) \<le> length ps" by (rule class_match_length)
  then show ?case by simp
qed simp_all

subsection \<open>Commands\<close>

definition redis_get :: "Redis \<Rightarrow> string \<Rightarrow> js_error + string option" where
  "redis_get r key =
     (if status r \<noteq> Ready then Inl ConnectionError
      else Inr (map_option payload (map_of (entries r) key)))"

definition redis_setex :: "Redis \<Rightarrow> string \<Rightarrow> nat \<Rightarrow> string \<Rightarrow> js_error + Redis" where
  "redis_setex r key seconds val =
     (if status r \<noteq> Ready then Inl ConnectionError
      else if seconds = 0 then Inl ReplyError
      else Inr (r\<lparr>entries := (key, \<lparr>payload = val, ttl = seconds\<rparr>)
                  # filter (\<lambda>e. fst e \<noteq> key) (entries r)\<rparr>))"

definition redis_del :: "Redis \<Rightarrow> string list \<Rightarrow> js_error + Redis" where
  "redis_del r ks =
     (if status r \<noteq> Ready then Inl ConnectionError
      else Inr (r\<lparr>entries := filter (\<lambda>e. fst e \<notin> set ks) (entries r)\<rparr>))"

definition redis_keys :: "Redis \<Rightarrow> string \<Rightarrow> js_error + string list" where
  "redis_keys r pat =
     (if status r \<noteq> Ready then Inl ConnectionError
      else Inr (filter (glob_match pat) (map fst (entries r))))"

section \<open>The cache service (\<^verbatim>\<open>src/cache/cacheService.ts\<close>)\<close>

type_synonym RedisClient = "Redis option"

definition TTL_PROPERTY :: nat where "TTL_PROPERTY = 60 * 15"
definition TTL_USER :: nat where "TTL_USER = 60 * 30"
definition TTL_SEARCH :: nat where "TTL_SEARCH = 60 * 5"
definition TTL_FAVORITES :: nat where "TTL_FAVORITES = 60 * 10"
definition TTL_PROPERTY_LIST :: nat where "TTL_PROPERTY_LIST = 60 * 10"

text \<open>
  The template literals of \<^verbatim>\<open>KEYS\<close>. \<open>js_String\<close> is the conversion a template
  literal applies to a value that is not already a string (for a Date the model has only its
  ISO text). The page and the limit default to 1 and 10.
\<close>

fun js_String :: "jsval \<Rightarrow> string"
  and js_join :: "jsval list \<Rightarrow> string"
where
  "js_String JUndefined = ''undefined''"
| "js_String JNull = ''null''"
| "js_String (JBool b) = (if b then ''true'' else ''false'')"
| "js_String (JNum n) = show_int n"
| "js_String (JFloat s) = s"
| "js_String (JStr s) = s"
| "js_String (JDate s) = s"
| "js_String (JArr xs) = js_join xs"
| "js_String (JObj kvs) = ''[object Object]''"
| "js_join [] = []"
| "js_join (x # xs) =
     (if x = JNull \<or> x = JUndefined then [] else js_String x)
     @ (if xs = [] then [] else CHR '','' # js_join xs)"

definition KEYS_PROPERTY :: "string \<Rightarrow> string" where
  "KEYS_PROPERTY id' = ''property:'' @ id'"

definition KEYS_USER_PROFILE :: "string \<Rightarrow> string" where
  "KEYS_USER_PROFILE id' = ''user:profile:'' @ id'"

definition KEYS_USER_PROPERTIES :: "string \<Rightarrow> int option \<Rightarrow> int option \<Rightarrow> string" where
  "KEYS_USER_PROPERTIES userId page limit =
     ''user:properties:'' @ userId @ '':'' @ show_int (case page of None \<Rightarrow> 1 | Some p \<Rightarrow> p)
       @ '':'' @ show_int (case limit of None \<Rightarrow> 10 | Some l \<Rightarrow> l)"

definition KEYS_PROPERTY_SEARCH :: "string \<Rightarrow> string" where
  "KEYS_PROPERTY_SEARCH query = ''search:properties:'' @ query"

definition KEYS_USER_FAVORITES :: "string \<Rightarrow> int option \<Rightarrow> int option \<Rightarrow> string" where
  "KEYS_USER_FAVORITES userId page limit =
     ''user:favorites:'' @ userId @ '':'' @ show_int (case page of None \<Rightarrow> 1 | Some p \<Rightarrow> p)
       @ '':'' @ show_int (case limit of None \<Rightarrow> 10 | Some l \<Rightarrow> l)"

definition KEYS_FAVORITE_STATUS :: "string \<Rightarrow> string \<Rightarrow> string" where
  "KEYS_FAVORITE_STATUS userId propertyId = ''favorite:status:'' @ userId @ '':'' @ propertyId"

subsection \<open>Generic cache methods\<close>

text \<open>
  Each private method is a \<^verbatim>\<open>try\<close> block and a \<^verbatim>\<open>catch\<close> that logs and returns:
  \<open>*_try\<close> is the block, with \<open>Inl\<close> for what it throws, and the method itself is the
  block under its \<^verbatim>\<open>catch\<close>. When \<^verbatim>\<open>JSON.stringify\<close> gives \<^verbatim>\<open>undefined\<close> the
  client sends the empty string.
\<close>

definition setCache_try :: "RedisClient \<Rightarrow> string \<Rightarrow> jsval \<Rightarrow> nat \<Rightarrow> js_error + RedisClient" where
  "setCache_try client key data seconds =
     (case client of
        None \<Rightarrow> Inr None
      | Some r \<Rightarrow>
          (case redis_setex r key seconds
                  (case JSON_stringify data of None \<Rightarrow> [] | Some text \<Rightarrow> text) of
             Inl e \<Rightarrow> Inl e
           | Inr r' \<Rightarrow> Inr (Some r')))"

definition setCache :: "RedisClient \<Rightarrow> string \<Rightarrow> jsval \<Rightarrow> nat \<Rightarrow> RedisClient" where
  "setCache client key data seconds =
     (case setCache_try client key data seconds of
        Inl e \<Rightarrow> client
      | Inr client' \<Rightarrow> client')"

definition getCache_try :: "RedisClient \<Rightarrow> string \<Rightarrow> js_error + jsval" where
  "getCache_try client key =
     (case client of
        None \<Rightarrow> Inr JNull
      | Some r \<Rightarrow>
          (case redis_get r key of
             Inl e \<Rightarrow> Inl e
           | Inr None \<Rightarrow> Inr JNull
           | Inr (Some data) \<Rightarrow>
               if data = [] then Inr JNull
               else (case JSON_parse data of
                       None \<Rightarrow> Inl SyntaxError
                     | Some v \<Rightarrow> Inr v)))"

definition getCache :: "RedisClient \<Rightarrow> string \<Rightarrow> jsval" where
  "getCache client key =
     (case getCache_try client key of
        Inl e \<Rightarrow> JNull
      | Inr v \<Rightarrow> v)"

definition deleteCache_try :: "RedisClient \<Rightarrow> string \<Rightarrow> js_error + RedisClient" where
  "deleteCache_try client key =
     (case client of
        None \<Rightarrow> Inr None
      | Some r \<Rightarrow>
          (case redis_del r [key] of
             Inl e \<Rightarrow> Inl e
           | Inr r' \<Rightarrow> Inr (Some r')))"

definition deleteCache :: "RedisClient \<Rightarrow> string \<Rightarrow> RedisClient" where
  "deleteCache client key =
     (case deleteCache_try client key of
        Inl e \<Rightarrow> client
      | Inr client' \<Rightarrow> client')"

definition deleteCachePattern_try :: "RedisClient \<Rightarrow> string \<Rightarrow> js_error + RedisClient" where
  "deleteCachePattern_try client pat =
     (case client of
        None \<Rightarrow> Inr None
      | Some r \<Rightarrow>
          (case redis_keys r pat of
             Inl e \<Rightarrow> Inl e
           | Inr keys \<Rightarrow>
               if 0 < length keys then
                 (case redis_del r keys of
                    Inl e \<Rightarrow> Inl e
                  | Inr r' \<Rightarrow> Inr (Some r'))
               else Inr (Some r)))"

definition deleteCachePattern :: "RedisClient \<Rightarrow> string \<Rightarrow> RedisClient" where
  "deleteCachePattern client pat =
     (case deleteCachePattern_try client pat of
        Inl e \<Rightarrow> client
      | Inr client' \<Rightarrow> client')"

subsection \<open>Property caching methods\<close>

definition cacheProperty :: "RedisClient \<Rightarrow> jsval \<Rightarrow> RedisClient" where
  "cacheProperty client property =
     (if \<not> truthy (js_get property ''_id'') then client
      else setCache client (KEYS_PROPERTY (js_String (js_get property ''_id''))) property TTL_PROPERTY)"

definition getCachedProperty :: "RedisClient \<Rightarrow> string \<Rightarrow> jsval" where
  "getCachedProperty client propertyId = getCache client (KEYS_PROPERTY propertyId)"

definition invalidateProperty :: "RedisClient \<Rightarrow> string \<Rightarrow> RedisClient" where
  "invalidateProperty client propertyId =
     deleteCachePattern
       (deleteCachePattern (deleteCache client (KEYS_PROPERTY propertyId)) ''search:properties:*'')
       ''user:properties:*''"

subsection \<open>User caching methods\<close>

definition cacheUserProfile :: "RedisClient \<Rightarrow> jsval \<Rightarrow> RedisClient" where
  "cacheUserProfile client user =
     (if \<not> truthy (js_get user ''_id'') then client
      else setCache client (KEYS_USER_PROFILE (js_String (js_get user ''_id''))) user TTL_USER)"

definition getCachedUserProfile :: "RedisClient \<Rightarrow> string \<Rightarrow> jsval" where
  "getCachedUserProfile client userId = getCache client (KEYS_USER_PROFILE userId)"

definition invalidateUserProfile :: "RedisClient \<Rightarrow> string \<Rightarrow> RedisClient" where
  "invalidateUserProfile client userId = deleteCache client (KEYS_USER_PROFILE userId)"

subsection \<open>Property search caching\<close>

definition b64_char :: "nat \<Rightarrow> char" where
  "b64_char n = (''ABCDEFGHIJKLMNOPQRSTUVWXYZabcdefghijklmnopqrstuvwxyz0123456789+/'') ! n"

fun base64 :: "string \<Rightarrow> string" where
  "base64 [] = []"
| "base64 [a] =
     [b64_char (of_char a div 4), b64_char ((of_char a mod 4) * 16), CHR ''='', CHR ''='']"
| "base64 [a, b] =
     [b64_char (of_char a div 4), b64_char ((of_char a mod 4) * 16 + of_char b div 16),
      b64_char ((of_char b mod 16) * 4), CHR ''='']"
| "base64 (a # b # c # rest) =
     [b64_char (of_char a div 4), b64_char ((of_char a mod 4) * 16 + of_char b div 16),
      b64_char ((of_char b mod 16) * 4 + of_char c div 64), b64_char (of_char c mod 64)]
     @ base64 rest"

text \<open>
  \<^verbatim>\<open>generateSearchKey\<close>: the keys of the query, sorted, are assigned one by one to a
  fresh object, which is serialised and base64-encoded. A query is an object, given by its
  properties.
\<close>

definition Object_keys :: "(string \<times> jsval) list \<Rightarrow> string list" where
  "Object_keys query = map fst query"

definition sortedQuery :: "(string \<times> jsval) list \<Rightarrow> (string \<times> jsval) list" where
  "sortedQuery query =
     foldl (\<lambda>obj key. obj_assign obj key (js_get (JObj query) key)) [] (sort (Object_keys query))"

definition generateSearchKey :: "(string \<times> jsval) list \<Rightarrow> string" where
  "generateSearchKey query = base64 (stringify_val (JObj (sortedQuery query)))"

definition cachePropertySearch :: "RedisClient \<Rightarrow> (string \<times> jsval) list \<Rightarrow> jsval \<Rightarrow> RedisClient" where
  "cachePropertySearch client query results =
     setCache client (KEYS_PROPERTY_SEARCH (generateSearchKey query)) results TTL_SEARCH"

definition getCachedPropertySearch :: "RedisClient \<Rightarrow> (string \<times> jsval) list \<Rightarrow> jsval" where
  "getCachedPropertySearch client query =
     getCache client (KEYS_PROPERTY_SEARCH (generateSearchKey query))"

definition invalidatePropertySearches :: "RedisClient \<Rightarrow> RedisClient" where
  "invalidatePropertySearches client = deleteCachePattern client ''search:properties:*''"

subsection \<open>User properties caching\<close>

definition cacheUserProperties :: "RedisClient \<Rightarrow> string \<Rightarrow> int \<Rightarrow> int \<Rightarrow> jsval \<Rightarrow> RedisClient" where
  "cacheUserProperties client userId page limit results =
     setCache client (KEYS_USER_PROPERTIES userId (Some page) (Some limit)) results TTL_PROPERTY_LIST"

definition getCachedUserProperties :: "RedisClient \<Rightarrow> string \<Rightarrow> int \<Rightarrow> int \<Rightarrow> jsval" where
  "getCachedUserProperties client userId page limit =
     getCache client (KEYS_USER_PROPERTIES userId (Some page) (Some limit))"

definition invalidateUserProperties :: "RedisClient \<Rightarrow> string \<Rightarrow> RedisClient" where
  "invalidateUserProperties client userId =
     invalidatePropertySearches (deleteCachePattern client (''user:properties:'' @ userId @ '':*''))"

subsection \<open>Favorites caching methods\<close>

definition cacheFavoriteStatus :: "RedisClient \<Rightarrow> string \<Rightarrow> string \<Rightarrow> jsval \<Rightarrow> RedisClient" where
  "cacheFavoriteStatus client userId propertyId status' =
     setCache client (KEYS_FAVORITE_STATUS userId propertyId) status' TTL_FAVORITES"

definition getCachedFavoriteStatus :: "RedisClient \<Rightarrow> string \<Rightarrow> string \<Rightarrow> jsval" where
  "getCachedFavoriteStatus client userId propertyId =
     getCache client (KEYS_FAVORITE_STATUS userId propertyId)"

definition cacheUserFavorites :: "RedisClient \<Rightarrow> string \<Rightarrow> int \<Rightarrow> int \<Rightarrow> jsval \<Rightarrow> RedisClient" where
  "cacheUserFavorites client userId page limit results =
     setCache client (KEYS_USER_FAVORITES userId (Some page) (Some limit)) results TTL_FAVORITES"

definition getCachedUserFavorites :: "RedisClient \<Rightarrow> string \<Rightarrow> int \<Rightarrow> int \<Rightarrow> jsval" where
  "getCachedUserFavorites client userId page limit =
     getCache client (KEYS_USER_FAVORITES userId (Some page) (Some limit))"

definition invalidateFavorites :: "RedisClient \<Rightarrow> string \<Rightarrow> RedisClient" where
  "invalidateFavorites client userId =
     deleteCachePattern (deleteCachePattern client (''user:favorites:'' @ userId @ '':*''))
       (''favorite:status:'' @ userId @ '':*'')"

definition invalidateSpecificFavorite :: "RedisClient \<Rightarrow> string \<Rightarrow> string \<Rightarrow> RedisClient" where
  "invalidateSpecificFavorite client userId propertyId =
     deleteCachePattern (deleteCache client (KEYS_FAVORITE_STATUS userId propertyId))
       (''user:favorites:'' @ userId @ '':*'')"

definition warmPropertyCache :: "RedisClient \<Rightarrow> string \<Rightarrow> jsval \<Rightarrow> RedisClient" where
  "warmPropertyCache client propertyId property = cacheProperty client property"

section \<open>What the store holds\<close>

text \<open>
  Observers used to state the properties: whether the client is ready, the entry the
  keyspace holds under a key, the text a value is stored as, and the value a stored entry
  reads back as.
\<close>

definition ready :: "RedisClient \<Rightarrow> bool" where
  "ready client = (case client of None \<Rightarrow> False | Some r \<Rightarrow> status r = Ready)"

definition cached :: "RedisClient \<Rightarrow> string \<Rightarrow> redis_entry option" where
  "cached client key = (case client of None \<Rightarrow> None | Some r \<Rightarrow> map_of (entries r) key)"

definition decode_entry :: "redis_entry option \<Rightarrow> jsval" where
  "decode_entry e =
     (case e of
        None \<Rightarrow> JNull
      | Some x \<Rightarrow>
          if payload x = [] then JNull
          else (case JSON_parse (payload x) of None \<Rightarrow> JNull | Some v \<Rightarrow> v))"

definition encode :: "jsval \<Rightarrow> string" where
  "encode data = (case JSON_stringify data of None \<Rightarrow> [] | Some text \<Rightarrow> text)"

definition undecodable :: "RedisClient \<Rightarrow> string \<Rightarrow> bool" where
  "undecodable client key =
     (case cached client key of None \<Rightarrow> False | Some e \<Rightarrow> JSON_parse (payload e) = None)"

section \<open>Concrete data for the scenarios\<close>

definition example_property :: jsval where
  "example_property =
     JObj [(''_id'', JStr ''p1''), (''price'', JNum 5000),
           (''availableFrom'', JDate ''2024-01-01T00:00:00.000Z'')]"

definition example_plain_property :: jsval where
  "example_plain_property =
     JObj [(''_id'', JStr ''p1''), (''price'', JNum 5000), (''tags'', JArr [JStr ''a'', JNull])]"

definition empty_cache :: RedisClient where
  "empty_cache = Some \<lparr>status = Ready, entries = []\<rparr>"

definition example_query :: "(string \<times> jsval) list" where
  "example_query = [(''city'', JStr ''Pune''), (''bedrooms'', JStr ''2'')]"

definition example_query_permuted :: "(string \<times> jsval) list" where
  "example_query_permuted = [(''bedrooms'', JStr ''2''), (''city'', JStr ''Pune'')]"

definition example_results :: jsval where
  "example_results =
     JObj [(''success'', JBool True), (''properties'', JArr [example_property]), (''total'', JNum 1)]"

section \<open>Domain operations\<close>

text \<open>
  The controllers call the Mongoose models around the cache service. The durable store is an
  external collaborator: its state is a parameter \<open>'d\<close>, and a value of \<open>'d Models\<close> gives,
  for each model call the controllers make, what the call returns (\<open>Inr\<close>, with the new
  state for a call that writes) or throws (\<open>Inl\<close>; a call that throws leaves the state as it
  was). A document is the object its \<^verbatim>\<open>toJSON()\<close> gives, \<^verbatim>\<open>null\<close> when nothing is found.
  Every theorem about a controller holds for all such behaviours.
\<close>

record db_error =
  err_name :: string
  err_code :: int
  err_messages :: "string list"

record 'd Models =
  Property_findById :: "string \<Rightarrow> 'd \<Rightarrow> db_error + jsval"
  Property_findByIdAndUpdate :: "string \<Rightarrow> jsval \<Rightarrow> 'd \<Rightarrow> db_error + (jsval \<times> 'd)"
  Property_findByIdAndDelete :: "string \<Rightarrow> 'd \<Rightarrow> db_error + (jsval \<times> 'd)"
  Favorite_findOne :: "string \<Rightarrow> string \<Rightarrow> 'd \<Rightarrow> db_error + jsval"
  Favorite_save :: "string \<Rightarrow> string \<Rightarrow> jsval \<Rightarrow> jsval \<Rightarrow> 'd \<Rightarrow> db_error + (jsval \<times> 'd)"
  Favorite_findById :: "string \<Rightarrow> 'd \<Rightarrow> db_error + jsval"
  Favorite_findOneAndDelete :: "string \<Rightarrow> string \<Rightarrow> 'd \<Rightarrow> db_error + (jsval \<times> 'd)"
  Favorite_findOneAndUpdate :: "string \<Rightarrow> string \<Rightarrow> jsval \<Rightarrow> jsval \<Rightarrow> 'd \<Rightarrow> db_error + (jsval \<times> 'd)"

text \<open>The calls made on the durable store, in order, are part of what a run returns.\<close>

datatype db_call =
    Call_Property_findById string
  | Call_Property_findByIdAndUpdate string
  | Call_Property_findByIdAndDelete string
  | Call_Favorite_findOne string string
  | Call_Favorite_save string string
  | Call_Favorite_findById string
  | Call_Favorite_findOneAndDelete string string
  | Call_Favorite_findOneAndUpdate string string

record response =
  code :: nat
  body :: jsval

record 'd run =
  response :: response
  cache_after :: RedisClient
  db_after :: "'d"
  db_calls :: "db_call list"

definition failure :: "nat \<Rightarrow> string \<Rightarrow> response" where
  "failure c msg = \<lparr>code = c, body = JObj [(''success'', JBool False), (''message'', JStr msg)]\<rparr>"

fun join_messages :: "string list \<Rightarrow> string" where
  "join_messages [] = []"
| "join_messages [m] = m"
| "join_messages (m # ms) = m @ '', '' @ join_messages ms"

subsection \<open>\<^verbatim>\<open>src/controllers/favoriteController.ts\<close>\<close>

text \<open>The \<^verbatim>\<open>catch\<close> blocks of the four methods.\<close>

definition addToFavorites_catch :: "db_error \<Rightarrow> response" where
  "addToFavorites_catch e =
     (if err_name e = ''ValidationError'' then failure 400 (join_messages (err_messages e))
      else if err_code e = 11000 then failure 400 ''Property is already in your favorites''
      else failure 500 ''Internal server error'')"

definition removeFromFavorites_catch :: "db_error \<Rightarrow> response" where
  "removeFromFavorites_catch e =
     (if err_name e = ''CastError'' then failure 400 ''Invalid property ID format''
      else failure 500 ''Internal server error'')"

definition updateFavorite_catch :: "db_error \<Rightarrow> response" where
  "updateFavorite_catch e =
     (if err_name e = ''ValidationError'' then failure 400 (join_messages (err_messages e))
      else if err_name e = ''CastError'' then failure 400 ''Invalid favorite ID format''
      else failure 500 ''Internal server error'')"

text \<open>
  The object \<^verbatim>\<open>favoriteResponse\<close> built from the populated document (\<^verbatim>\<open>toString()\<close> is
  \<open>js_String\<close>; with \<^verbatim>\<open>?.\<close> a missing document gives \<^verbatim>\<open>undefined\<close> members).
\<close>

definition favoriteResponse :: "jsval \<Rightarrow> jsval" where
  "favoriteResponse doc =
     (if doc = JNull \<or> doc = JUndefined then
        JObj [(''_id'', JUndefined), (''userId'', JStr []), (''propertyId'', JStr []),
              (''notes'', JUndefined), (''tags'', JUndefined), (''createdAt'', JUndefined),
              (''updatedAt'', JUndefined), (''property'', JUndefined), (''user'', JUndefined)]
      else
        JObj [(''_id'', JStr (js_String (js_get doc ''_id''))),
              (''userId'', js_or (JStr (js_String (js_get doc ''userId''))) (JStr [])),
              (''propertyId'', js_or (JStr (js_String (js_get doc ''propertyId''))) (JStr [])),
              (''notes'', js_get doc ''notes''), (''tags'', js_get doc ''tags''),
              (''createdAt'', js_get doc ''createdAt''), (''updatedAt'', js_get doc ''updatedAt''),
              (''property'', js_get doc ''propertyId''), (''user'', js_get doc ''userId'')])"

text \<open>
  A document carries its \<^verbatim>\<open>_id\<close>. Its populated members \<^verbatim>\<open>userId\<close> and \<^verbatim>\<open>propertyId\<close>
  are \<^verbatim>\<open>null\<close> when the document they refer to is gone, and then \<^verbatim>\<open>.toString()\<close> on them
  throws a \<^verbatim>\<open>TypeError\<close>, which the \<^verbatim>\<open>catch\<close> answers with 500.
\<close>

definition nullish :: "jsval \<Rightarrow> bool" where
  "nullish v = (v = JNull \<or> v = JUndefined)"

definition favoriteResponse_throws :: "jsval \<Rightarrow> bool" where
  "favoriteResponse_throws doc =
     (\<not> nullish doc \<and> (nullish (js_get doc ''userId'') \<or> nullish (js_get doc ''propertyId'')))"

definition favorited_status :: "jsval \<Rightarrow> jsval" where
  "favorited_status favorite =
     JObj [(''isFavorited'', JBool True), (''favoriteId'', JStr (js_String (js_get favorite ''_id'')))]"

text \<open>
  \<^verbatim>\<open>addToFavorites\<close>. The arguments are \<^verbatim>\<open>authReq.user.id\<close> and the members
  \<^verbatim>\<open>propertyId\<close>, \<^verbatim>\<open>notes\<close>, \<^verbatim>\<open>tags\<close> of the body; an absent \<^verbatim>\<open>propertyId\<close> is the
  empty string.
\<close>

definition addToFavorites ::
  "'d Models \<Rightarrow> string \<Rightarrow> string \<Rightarrow> jsval \<Rightarrow> jsval \<Rightarrow> RedisClient \<Rightarrow> 'd \<Rightarrow> 'd run" where
  "addToFavorites M userId propertyId notes tags client db =
     (if propertyId = [] then
        \<lparr>response = failure 400 ''Property ID is required'', cache_after = client, db_after = db,
         db_calls = []\<rparr>
      else
        (case Property_findById M propertyId db of
           Inl e \<Rightarrow>
             \<lparr>response = addToFavorites_catch e, cache_after = client, db_after = db,
              db_calls = [Call_Property_findById propertyId]\<rparr>
         | Inr property \<Rightarrow>
             if \<not> truthy property then
               \<lparr>response = failure 404 ''Property not found'', cache_after = client, db_after = db,
                db_calls = [Call_Property_findById propertyId]\<rparr>
             else if truthy (getCachedFavoriteStatus client userId propertyId)
                     \<and> truthy (js_get (getCachedFavoriteStatus client userId propertyId) ''isFavorited'')
             then
               \<lparr>response = failure 400 ''Property is already in your favorites'', cache_after = client,
                db_after = db, db_calls = [Call_Property_findById propertyId]\<rparr>
             else
               (case Favorite_findOne M userId propertyId db of
                  Inl e \<Rightarrow>
                    \<lparr>response = addToFavorites_catch e, cache_after = client, db_after = db,
                     db_calls = [Call_Property_findById propertyId,
                                 Call_Favorite_findOne userId propertyId]\<rparr>
                | Inr existingFavorite \<Rightarrow>
                    if truthy existingFavorite then
                      \<lparr>response = failure 400 ''Property is already in your favorites'',
                       cache_after = cacheFavoriteStatus client userId propertyId
                                       (favorited_status existingFavorite),
                       db_after = db,
                       db_calls = [Call_Property_findById propertyId,
                                   Call_Favorite_findOne userId propertyId]\<rparr>
                    else
                      (case Favorite_save M userId propertyId (js_or notes (JStr [])) (js_or tags (JArr [])) db of
                         Inl e \<Rightarrow>
                           \<lparr>response = addToFavorites_catch e, cache_after = client, db_after = db,
                            db_calls = [Call_Property_findById propertyId,
                                        Call_Favorite_findOne userId propertyId,
                                        Call_Favorite_save userId propertyId]\<rparr>
                       | Inr (favorite, db1) \<Rightarrow>
                           (case Favorite_findById M (js_String (js_get favorite ''_id'')) db1 of
                              Inl e \<Rightarrow>
                                \<lparr>response = addToFavorites_catch e, cache_after = client, db_after = db1,
                                 db_calls = [Call_Property_findById propertyId,
                                             Call_Favorite_findOne userId propertyId,
                                             Call_Favorite_save userId propertyId,
                                             Call_Favorite_findById (js_String (js_get favorite ''_id''))]\<rparr>
                            | Inr populatedFavorite \<Rightarrow>
                                if favoriteResponse_throws populatedFavorite then
                                  \<lparr>response = failure 500 ''Internal server error'', cache_after = client,
                                   db_after = db1,
                                   db_calls = [Call_Property_findById propertyId,
                                               Call_Favorite_findOne userId propertyId,
                                               Call_Favorite_save userId propertyId,
                                               Call_Favorite_findById (js_String (js_get favorite ''_id''))]\<rparr>
                                else
                                \<lparr>response =
                                   \<lparr>code = 201,
                                    body = JObj [(''success'', JBool True),
                                      (''message'', JStr ''Property added to favorites successfully''),
                                      (''favorite'', favoriteResponse populatedFavorite)]\<rparr>,
                                 cache_after =
                                   invalidateFavorites
                                     (cacheFavoriteStatus client userId propertyId (favorited_status favorite))
                                     userId,
                                 db_after = db1,
                                 db_calls = [Call_Property_findById propertyId,
                                             Call_Favorite_findOne userId propertyId,
                                             Call_Favorite_save userId propertyId,
                                             Call_Favorite_findById (js_String (js_get favorite ''_id''))]\<rparr>)))))"

definition removeFromFavorites :: "'d Models \<Rightarrow> string \<Rightarrow> string \<Rightarrow> RedisClient \<Rightarrow> 'd \<Rightarrow> 'd run" where
  "removeFromFavorites M userId propertyId client db =
     (if propertyId = [] then
        \<lparr>response = failure 400 ''Property ID is required'', cache_after = client, db_after = db,
         db_calls = []\<rparr>
      else
        (case Favorite_findOneAndDelete M userId propertyId db of
           Inl e \<Rightarrow>
             \<lparr>response = removeFromFavorites_catch e, cache_after = client, db_after = db,
              db_calls = [Call_Favorite_findOneAndDelete userId propertyId]\<rparr>
         | Inr (deletedFavorite, db1) \<Rightarrow>
             if \<not> truthy deletedFavorite then
               \<lparr>response = failure 404 ''Favorite not found'', cache_after = client, db_after = db1,
                db_calls = [Call_Favorite_findOneAndDelete userId propertyId]\<rparr>
             else
               \<lparr>response =
                  \<lparr>code = 200,
                   body = JObj [(''success'', JBool True),
                     (''message'', JStr ''Property removed from favorites successfully'')]\<rparr>,
                cache_after =
                  invalidateFavorites
                    (cacheFavoriteStatus client userId propertyId (JObj [(''isFavorited'', JBool False)]))
                    userId,
                db_after = db1,
                db_calls = [Call_Favorite_findOneAndDelete userId propertyId]\<rparr>))"

definition updateFavorite ::
  "'d Models \<Rightarrow> string \<Rightarrow> string \<Rightarrow> jsval \<Rightarrow> jsval \<Rightarrow> RedisClient \<Rightarrow> 'd \<Rightarrow> 'd run" where
  "updateFavorite M userId id' notes tags client db =
     (case Favorite_findOneAndUpdate M id' userId notes tags db of
        Inl e \<Rightarrow>
          \<lparr>response = updateFavorite_catch e, cache_after = client, db_after = db,
           db_calls = [Call_Favorite_findOneAndUpdate id' userId]\<rparr>
      | Inr (updatedFavorite, db1) \<Rightarrow>
          if \<not> truthy updatedFavorite then
            \<lparr>response = failure 404 ''Favorite not found'', cache_after = client, db_after = db1,
             db_calls = [Call_Favorite_findOneAndUpdate id' userId]\<rparr>
          else if favoriteResponse_throws updatedFavorite then
            \<lparr>response = failure 500 ''Internal server error'', cache_after = client, db_after = db1,
             db_calls = [Call_Favorite_findOneAndUpdate id' userId]\<rparr>
          else
            \<lparr>response =
               \<lparr>code = 200,
                body = JObj [(''success'', JBool True),
                  (''message'', JStr ''Favorite updated successfully''),
                  (''favorite'', favoriteResponse updatedFavorite)]\<rparr>,
             cache_after = invalidateFavorites client userId,
             db_after = db1,
             db_calls = [Call_Favorite_findOneAndUpdate id' userId]\<rparr>)"

definition checkFavoriteStatus :: "'d Models \<Rightarrow> string \<Rightarrow> string \<Rightarrow> RedisClient \<Rightarrow> 'd \<Rightarrow> 'd run" where
  "checkFavoriteStatus M userId propertyId client db =
     (if truthy (getCachedFavoriteStatus client userId propertyId) then
        \<lparr>response =
           \<lparr>code = 200,
            body = JObj [(''success'', JBool True), (''message'', JStr ''Favorite status retrieved''),
              (''isFavorited'', js_get (getCachedFavoriteStatus client userId propertyId) ''isFavorited''),
              (''favoriteId'',
                 js_or (js_get (getCachedFavoriteStatus client userId propertyId) ''favoriteId'') JNull)]\<rparr>,
         cache_after = client, db_after = db, db_calls = []\<rparr>
      else
        (case Favorite_findOne M userId propertyId db of
           Inl e \<Rightarrow>
             \<lparr>response = failure 500 ''Internal server error'', cache_after = client, db_after = db,
              db_calls = [Call_Favorite_findOne userId propertyId]\<rparr>
         | Inr favorite \<Rightarrow>
             \<lparr>response =
                \<lparr>code = 200,
                 body = JObj [(''success'', JBool True), (''message'', JStr ''Favorite status retrieved''),
                   (''isFavorited'', JBool (truthy favorite)),
                   (''favoriteId'',
                      if truthy favorite then js_or (JStr (js_String (js_get favorite ''_id''))) JNull
                      else JNull)]\<rparr>,
              cache_after =
                cacheFavoriteStatus client userId propertyId
                  (if truthy favorite \<and> js_String (js_get favorite ''_id'') \<noteq> [] then
                     JObj [(''isFavorited'', JBool True),
                           (''favoriteId'', JStr (js_String (js_get favorite ''_id'')))]
                   else JObj [(''isFavorited'', JBool (truthy favorite))]),
              db_after = db,
              db_calls = [Call_Favorite_findOne userId propertyId]\<rparr>))"

subsection \<open>\<^verbatim>\<open>src/middleware/ownershipMiddleware.ts\<close> and the property controller\<close>

text \<open>
  \<^verbatim>\<open>checkPropertyOwnership\<close> answers itself (\<open>Inl\<close>) or calls \<^verbatim>\<open>next()\<close> (\<open>Inr\<close>). An absent
  \<^verbatim>\<open>req.params.id\<close> or \<^verbatim>\<open>req.user.id\<close> is the empty string.
\<close>

definition checkPropertyOwnership ::
  "'d Models \<Rightarrow> string \<Rightarrow> string \<Rightarrow> 'd \<Rightarrow> response + unit" where
  "checkPropertyOwnership M userId propertyId db =
     (if propertyId = [] then Inl (failure 400 ''Property ID is required'')
      else if userId = [] then Inl (failure 401 ''User authentication required'')
      else
        (case Property_findById M propertyId db of
           Inl e \<Rightarrow> Inl (failure 500 ''Internal server error'')
         | Inr property \<Rightarrow>
             if \<not> truthy property then Inl (failure 404 ''Property not found'')
             else if nullish (js_get property ''createdBy'') then
               Inl (failure 500 ''Internal server error'')
             else if js_String (js_get property ''createdBy'') \<noteq> userId then
               Inl (failure 403 ''Access denied. You can only modify properties you created.'')
             else Inr ()))"

definition property_catch :: "db_error \<Rightarrow> response" where
  "property_catch e =
     (if err_name e = ''ValidationError'' then failure 400 (join_messages (err_messages e))
      else if err_name e = ''CastError'' then failure 400 ''Invalid property ID format''
      else failure 500 ''Internal server error'')"

definition property_catch_cast :: "db_error \<Rightarrow> response" where
  "property_catch_cast e =
     (if err_name e = ''CastError'' then failure 400 ''Invalid property ID format''
      else failure 500 ''Internal server error'')"

text \<open>\<^verbatim>\<open>delete obj.k\<close> and the object \<^verbatim>\<open>{...doc.toJSON(), _id: ..., createdBy: ...}\<close>.\<close>

fun obj_delete :: "jsval \<Rightarrow> string \<Rightarrow> jsval" where
  "obj_delete (JObj kvs) k = JObj (filter (\<lambda>kv. fst kv \<noteq> k) kvs)"
| "obj_delete v k = v"

fun own_properties :: "jsval \<Rightarrow> (string \<times> jsval) list" where
  "own_properties (JObj kvs) = kvs"
| "own_properties v = []"

definition propertyResponse :: "jsval \<Rightarrow> jsval" where
  "propertyResponse doc =
     JObj (obj_define
             (obj_define (own_properties doc) ''_id'' (JStr (js_String (js_get doc ''_id''))))
             ''createdBy''
             (if truthy (js_get doc ''createdBy'') then JStr (js_String (js_get doc ''createdBy''))
              else JStr []))"

definition updateProperty ::
  "'d Models \<Rightarrow> string \<Rightarrow> string \<Rightarrow> jsval \<Rightarrow> RedisClient \<Rightarrow> 'd \<Rightarrow> 'd run" where
  "updateProperty M userId id' updateData client db =
     (case Property_findByIdAndUpdate M id' (obj_delete (obj_delete updateData ''createdBy'') ''id'') db of
        Inl e \<Rightarrow>
          \<lparr>response = property_catch e, cache_after = client, db_after = db,
           db_calls = [Call_Property_findByIdAndUpdate id']\<rparr>
      | Inr (updatedProperty, db1) \<Rightarrow>
          if \<not> truthy updatedProperty then
            \<lparr>response = failure 404 ''Property not found'', cache_after = client, db_after = db1,
             db_calls = [Call_Property_findByIdAndUpdate id']\<rparr>
          else
            \<lparr>response =
               \<lparr>code = 200,
                body = JObj [(''success'', JBool True),
                  (''message'', JStr ''Property updated successfully''),
                  (''property'', propertyResponse updatedProperty)]\<rparr>,
             cache_after =
               invalidateUserProperties
                 (invalidatePropertySearches (cacheProperty client (propertyResponse updatedProperty)))
                 userId,
             db_after = db1,
             db_calls = [Call_Property_findByIdAndUpdate id']\<rparr>)"

definition deleteProperty :: "'d Models \<Rightarrow> string \<Rightarrow> string \<Rightarrow> RedisClient \<Rightarrow> 'd \<Rightarrow> 'd run" where
  "deleteProperty M userId propertyId client db =
     (case Property_findByIdAndDelete M propertyId db of
        Inl e \<Rightarrow>
          \<lparr>response = property_catch_cast e, cache_after = client, db_after = db,
           db_calls = [Call_Property_findByIdAndDelete propertyId]\<rparr>
      | Inr (deletedProperty, db1) \<Rightarrow>
          if \<not> truthy deletedProperty then
            \<lparr>response = failure 404 ''Property not found'', cache_after = client, db_after = db1,
             db_calls = [Call_Property_findByIdAndDelete propertyId]\<rparr>
          else
            \<lparr>response =
               \<lparr>code = 200,
                body = JObj [(''success'', JBool True),
                  (''message'', JStr ''Property deleted successfully'')]\<rparr>,
             cache_after = invalidateUserProperties (invalidateProperty client propertyId) userId,
             db_after = db1,
             db_calls = [Call_Property_findByIdAndDelete propertyId]\<rparr>)"

definition getPropertyById :: "'d Models \<Rightarrow> string \<Rightarrow> RedisClient \<Rightarrow> 'd \<Rightarrow> 'd run" where
  "getPropertyById M propertyId client db =
     (if truthy (getCachedProperty client propertyId) then
        \<lparr>response =
           \<lparr>code = 200,
            body = JObj [(''success'', JBool True),
              (''message'', JStr ''Property retrieved successfully''),
              (''property'', getCachedProperty client propertyId)]\<rparr>,
         cache_after = client, db_after = db, db_calls = []\<rparr>
      else
        (case Property_findById M propertyId db of
           Inl e \<Rightarrow>
             \<lparr>response = property_catch_cast e, cache_after = client, db_after = db,
              db_calls = [Call_Property_findById propertyId]\<rparr>
         | Inr property \<Rightarrow>
             if \<not> truthy property then
               \<lparr>response = failure 404 ''Property not found'', cache_after = client, db_after = db,
                db_calls = [Call_Property_findById propertyId]\<rparr>
             else
               \<lparr>response =
                  \<lparr>code = 200,
                   body = JObj [(''success'', JBool True),
                     (''message'', JStr ''Property retrieved successfully''),
                     (''property'', propertyResponse property)]\<rparr>,
                cache_after = cacheProperty client (propertyResponse property),
                db_after = db,
                db_calls = [Call_Property_findById propertyId]\<rparr>))"

text \<open>
  The routes \<^verbatim>\<open>PUT /:id\<close> and \<^verbatim>\<open>DELETE /:id\<close> of \<^verbatim>\<open>src/routes/propertyRoutes.ts\<close>:
  the ownership check, then the controller.
\<close>

definition updateProperty_route ::
  "'d Models \<Rightarrow> string \<Rightarrow> string \<Rightarrow> jsval \<Rightarrow> RedisClient \<Rightarrow> 'd \<Rightarrow> 'd run" where
  "updateProperty_route M userId id' updateData client db =
     (case checkPropertyOwnership M userId id' db of
        Inl res \<Rightarrow>
          \<lparr>response = res, cache_after = client, db_after = db,
           db_calls = (if id' = [] \<or> userId = [] then [] else [Call_Property_findById id'])\<rparr>
      | Inr u \<Rightarrow>
          (updateProperty M userId id' updateData client db)
            \<lparr>db_calls := Call_Property_findById id'
                          # db_calls (updateProperty M userId id' updateData client db)\<rparr>)"

definition deleteProperty_route :: "'d Models \<Rightarrow> string \<Rightarrow> string \<Rightarrow> RedisClient \<Rightarrow> 'd \<Rightarrow> 'd run" where
  "deleteProperty_route M userId propertyId client db =
     (case checkPropertyOwnership M userId propertyId db of
        Inl res \<Rightarrow>
          \<lparr>response = res, cache_after = client, db_after = db,
           db_calls = (if propertyId = [] \<or> userId = [] then [] else [Call_Property_findById propertyId])\<rparr>
      | Inr u \<Rightarrow>
          (deleteProperty M userId propertyId client db)
            \<lparr>db_calls := Call_Property_findById propertyId
                          # db_calls (deleteProperty M userId propertyId client db)\<rparr>)"

section \<open>An in-memory durable store\<close>

text \<open>
  The controllers above take the models as a parameter, so what is proved of them holds for
  every behaviour of the durable store. To run them on concrete requests the models are
  instantiated here by documents kept in two lists: \<^verbatim>\<open>findById\<close>, \<^verbatim>\<open>findOne\<close> return the
  first matching document or \<^verbatim>\<open>null\<close>, the update methods return the updated document
  (\<^verbatim>\<open>new: true\<close>), the delete methods return the deleted one, and \<^verbatim>\<open>save\<close> appends a
  document with a new id.
\<close>

record mem_db =
  mem_properties :: "jsval list"
  mem_favorites :: "jsval list"
  mem_counter :: nat

definition find_doc :: "(jsval \<Rightarrow> bool) \<Rightarrow> jsval list \<Rightarrow> jsval" where
  "find_doc P docs = (case List.find P docs of None \<Rightarrow> JNull | Some d \<Rightarrow> d)"

definition has_id :: "string \<Rightarrow> jsval \<Rightarrow> bool" where
  "has_id i d = (js_get d ''_id'' = JStr i)"

definition is_favorite_of :: "string \<Rightarrow> string \<Rightarrow> jsval \<Rightarrow> bool" where
  "is_favorite_of u p d = (js_get d ''userId'' = JStr u \<and> js_get d ''propertyId'' = JStr p)"

definition assign_all :: "jsval \<Rightarrow> (string \<times> jsval) list \<Rightarrow> jsval" where
  "assign_all d kvs = JObj (foldl (\<lambda>obj kv. obj_define obj (fst kv) (snd kv)) (own_properties d) kvs)"

definition mem_models :: "mem_db Models" where
  "mem_models =
     \<lparr>Property_findById = (\<lambda>i db. Inr (find_doc (has_id i) (mem_properties db))),
      Property_findByIdAndUpdate = (\<lambda>i data db.
        if find_doc (has_id i) (mem_properties db) = JNull then Inr (JNull, db)
        else Inr (assign_all (find_doc (has_id i) (mem_properties db)) (own_properties data),
                  db\<lparr>mem_properties :=
                       map (\<lambda>d. if has_id i d then assign_all d (own_properties data) else d)
                         (mem_properties db)\<rparr>)),
      Property_findByIdAndDelete = (\<lambda>i db.
        Inr (find_doc (has_id i) (mem_properties db),
             db\<lparr>mem_properties := filter (\<lambda>d. \<not> has_id i d) (mem_properties db)\<rparr>)),
      Favorite_findOne = (\<lambda>u p db. Inr (find_doc (is_favorite_of u p) (mem_favorites db))),
      Favorite_save = (\<lambda>u p notes tags db.
        Inr (JObj [(''_id'', JStr (''f'' @ show_nat (mem_counter db))), (''userId'', JStr u),
                   (''propertyId'', JStr p), (''notes'', notes), (''tags'', tags)],
             db\<lparr>mem_favorites := mem_favorites db
                    @ [JObj [(''_id'', JStr (''f'' @ show_nat (mem_counter db))), (''userId'', JStr u),
                             (''propertyId'', JStr p), (''notes'', notes), (''tags'', tags)]],
                mem_counter := Suc (mem_counter db)\<rparr>)),
      Favorite_findById = (\<lambda>i db. Inr (find_doc (has_id i) (mem_favorites db))),
      Favorite_findOneAndDelete = (\<lambda>u p db.
        Inr (find_doc (is_favorite_of u p) (mem_favorites db),
             db\<lparr>mem_favorites := filter (\<lambda>d. \<not> is_favorite_of u p d) (mem_favorites db)\<rparr>)),
      Favorite_findOneAndUpdate = (\<lambda>i u notes tags db.
        if find_doc (\<lambda>d. has_id i d \<and> js_get d ''userId'' = JStr u) (mem_favorites db) = JNull
        then Inr (JNull, db)
        else Inr (assign_all (find_doc (\<lambda>d. has_id i d \<and> js_get d ''userId'' = JStr u) (mem_favorites db))
                    [(''notes'', notes), (''tags'', tags)],
                  db\<lparr>mem_favorites :=
                       map (\<lambda>d. if has_id i d \<and> js_get d ''userId'' = JStr u
                                 then assign_all d [(''notes'', notes), (''tags'', tags)] else d)
                         (mem_favorites db)\<rparr>))\<rparr>"

section \<open>Vocabulary of the statements\<close>

text \<open>
  A string is free of glob characters when Redis reads it literally inside a \<^verbatim>\<open>KEYS\<close>
  pattern, as it does a Mongo ObjectId.
\<close>

definition glob_special :: "char \<Rightarrow> bool" where
  "glob_special c = (c = CHR ''*'' \<or> c = CHR ''?'' \<or> c = CHR ''['' \<or> c = backslash_c)"

definition glob_free :: "string \<Rightarrow> bool" where
  "glob_free p = list_all (\<lambda>c. \<not> glob_special c) p"

text \<open>
  The condition under which \<^verbatim>\<open>addToFavorites\<close> answers from the cache:
  \<^verbatim>\<open>cachedStatus && cachedStatus.isFavorited\<close>.
\<close>

definition says_favorited :: "RedisClient \<Rightarrow> string \<Rightarrow> string \<Rightarrow> bool" where
  "says_favorited client userId propertyId =
     (truthy (getCachedFavoriteStatus client userId propertyId)
      \<and> truthy (js_get (getCachedFavoriteStatus client userId propertyId) ''isFavorited''))"
section \<open>Concrete requests for the scenarios\<close>

text \<open>One property \<^verbatim>\<open>p1\<close> created by user \<^verbatim>\<open>u1\<close>, first with no favorite, then with one.\<close>

definition example_db :: mem_db where
  "example_db =
     \<lparr>mem_properties =
        [JObj [(''_id'', JStr ''p1''), (''title'', JStr ''Flat''), (''price'', JNum 5),
               (''availableFrom'', JDate ''2024-01-01T00:00:00.000Z''), (''createdBy'', JStr ''u1'')]],
      mem_favorites = [], mem_counter = 0\<rparr>"

definition favorite_doc :: jsval where
  "favorite_doc =
     JObj [(''_id'', JStr ''f0''), (''userId'', JStr ''u1''), (''propertyId'', JStr ''p1''),
           (''notes'', JStr []), (''tags'', JArr [])]"

definition example_db_favorited :: mem_db where
  "example_db_favorited = example_db\<lparr>mem_favorites := [favorite_doc], mem_counter := 1\<rparr>"

text \<open>The favorite toggle: a status check, an add, a second status check.\<close>

definition toggle_first_check :: "mem_db run" where
  "toggle_first_check = checkFavoriteStatus mem_models ''u1'' ''p1'' empty_cache example_db"

definition toggle_add :: "mem_db run" where
  "toggle_add =
     addToFavorites mem_models ''u1'' ''p1'' JUndefined JUndefined
       (cache_after toggle_first_check) (db_after toggle_first_check)"

definition toggle_second_check :: "mem_db run" where
  "toggle_second_check =
     checkFavoriteStatus mem_models ''u1'' ''p1'' (cache_after toggle_add) (db_after toggle_add)"

text \<open>A notes and tags update over a cache that holds the user's status and list entries.\<close>

definition status_cache :: RedisClient where
  "status_cache =
     cacheUserFavorites
       (cacheProperty (cacheFavoriteStatus empty_cache ''u1'' ''p1'' (favorited_status favorite_doc))
          (JObj [(''_id'', JStr ''p1'')]))
       ''u1'' 1 10 (JArr [])"

definition update_favorite_run :: "mem_db run" where
  "update_favorite_run =
     updateFavorite mem_models ''u1'' ''f0'' (JStr ''nice'') (JArr [JStr ''a'']) status_cache
       example_db_favorited"

text \<open>
  A price update over a cache that holds the property, a search result set containing it,
  the owner's first list page and another user's first list page.
\<close>

definition stale_property :: jsval where
  "stale_property = JObj [(''_id'', JStr ''p1''), (''price'', JNum 5)]"

definition listing_cache :: RedisClient where
  "listing_cache =
     cacheUserProperties
       (cacheUserProperties
          (cachePropertySearch (cacheProperty empty_cache stale_property) []
             (JObj [(''properties'', JArr [stale_property])]))
          ''u1'' 1 10 (JArr [stale_property]))
       ''u2'' 1 10 (JArr [])"

definition property_update_run :: "mem_db run" where
  "property_update_run =
     updateProperty_route mem_models ''u1'' ''p1'' (JObj [(''price'', JNum 6)]) listing_cache
       example_db"

text \<open>A cache whose status entry says favorited while the durable store holds no favorite.\<close>

definition stale_status_cache :: RedisClient where
  "stale_status_cache = cacheFavoriteStatus empty_cache ''u1'' ''p1'' (favorited_status favorite_doc)"
section \<open>Effect of the generic methods\<close>

lemma map_of_filter_fst:
  "map_of (filter (\<lambda>e. P (fst e)) es) k = (if P k then map_of es k else None)"
  by (induction es) auto

lemma map_of_filter_neq:
  "map_of (filter (\<lambda>e. fst e \<noteq> key) es) k = (if k \<noteq> key then map_of es k else None)"
  by (rule map_of_filter_fst [where P = "\<lambda>x. x \<noteq> key"])

lemma map_of_filter_notin:
  "map_of (filter (\<lambda>e. fst e \<notin> S) es) k = (if k \<notin> S then map_of es k else None)"
  by (rule map_of_filter_fst [where P = "\<lambda>x. x \<notin> S"])

lemma map_of_Some_in_keys: "map_of es k = Some e \<Longrightarrow> k \<in> set (map fst es)"
  by (induction es) (auto split: if_splits)

lemma unavailable_setCache: "\<not> ready client \<Longrightarrow> setCache client key data seconds = client"
  by (auto simp: ready_def setCache_def setCache_try_def redis_setex_def split: option.splits)

lemma unavailable_getCache: "\<not> ready client \<Longrightarrow> getCache client key = JNull"
  by (auto simp: ready_def getCache_def getCache_try_def redis_get_def split: option.splits)

lemma unavailable_deleteCache: "\<not> ready client \<Longrightarrow> deleteCache client key = client"
  by (auto simp: ready_def deleteCache_def deleteCache_try_def redis_del_def split: option.splits)

lemma unavailable_deleteCachePattern: "\<not> ready client \<Longrightarrow> deleteCachePattern client pat = client"
  by (auto simp: ready_def deleteCachePattern_def deleteCachePattern_try_def redis_keys_def
      split: option.splits)

lemma ready_setCache [simp]: "ready (setCache client key data seconds) = ready client"
  by (auto simp: ready_def setCache_def setCache_try_def redis_setex_def split: option.splits)

lemma ready_deleteCache [simp]: "ready (deleteCache client key) = ready client"
  by (auto simp: ready_def deleteCache_def deleteCache_try_def redis_del_def split: option.splits)

lemma ready_deleteCachePattern [simp]: "ready (deleteCachePattern client pat) = ready client"
  by (auto simp: ready_def deleteCachePattern_def deleteCachePattern_try_def redis_keys_def
      redis_del_def split: option.splits)

lemma cached_setCache:
  "ready client \<Longrightarrow> 0 < seconds \<Longrightarrow>
   cached (setCache client key data seconds) k =
     (if k = key then Some \<lparr>payload = encode data, ttl = seconds\<rparr> else cached client k)"
  by (auto simp: ready_def cached_def setCache_def setCache_try_def redis_setex_def encode_def
      map_of_filter_neq split: option.splits)

lemma cached_deleteCache:
  "ready client \<Longrightarrow> cached (deleteCache client key) k = (if k = key then None else cached client k)"
  by (auto simp: ready_def cached_def deleteCache_def deleteCache_try_def redis_del_def
      map_of_filter_neq split: option.splits)

lemma cached_deleteCachePattern:
  assumes rdy: "ready client"
  shows "cached (deleteCachePattern client pat) k
         = (if glob_match pat k then None else cached client k)"
proof (cases client)
  case None
  with rdy show ?thesis by (simp add: ready_def)
next
  case (Some r)
  with rdy have st: "status r = Ready" by (simp add: ready_def)
  define keys where "keys = filter (glob_match pat) (map fst (entries r))"
  have absent: "map_of (entries r) k = None" if "glob_match pat k" "k \<notin> set keys"
  proof (rule ccontr)
    assume "map_of (entries r) k \<noteq> None"
    then obtain e where "map_of (entries r) k = Some e" by auto
    then have "k \<in> set (map fst (entries r))" by (rule map_of_Some_in_keys)
    with that show False by (simp add: keys_def)
  qed
  have inkeys: "glob_match pat k" if "k \<in> set keys"
    using that by (simp add: keys_def)
  have rk: "redis_keys r pat = Inr keys"
    using st by (simp add: redis_keys_def keys_def)
  show ?thesis
  proof (cases "keys = []")
    case True
    then have "deleteCachePattern client pat = client"
      using Some rk by (simp add: deleteCachePattern_def deleteCachePattern_try_def)
    moreover have "cached client k = None" if "glob_match pat k"
      using absent [OF that] True Some by (simp add: cached_def)
    ultimately show ?thesis by simp
  next
    case False
    then have "deleteCachePattern client pat
               = Some (r\<lparr>entries := filter (\<lambda>e. fst e \<notin> set keys) (entries r)\<rparr>)"
      using Some rk st
      by (simp add: deleteCachePattern_def deleteCachePattern_try_def redis_del_def)
    then have "cached (deleteCachePattern client pat) k
               = (if k \<notin> set keys then map_of (entries r) k else None)"
      by (simp add: cached_def map_of_filter_notin)
    moreover have "cached client k = map_of (entries r) k"
      using Some by (simp add: cached_def)
    ultimately show ?thesis
      using absent inkeys by (cases "k \<in> set keys"; cases "glob_match pat k") auto
  qed
qed

lemma getCache_cached: "ready client \<Longrightarrow> getCache client key = decode_entry (cached client key)"
  by (auto simp: ready_def cached_def getCache_def getCache_try_def redis_get_def decode_entry_def
      split: option.splits)

lemma undecodable_getCache: "undecodable client key \<Longrightarrow> getCache client key = JNull"
  by (cases "ready client")
     (auto simp: unavailable_getCache getCache_cached undecodable_def decode_entry_def
       split: option.splits)

section \<open>The codec round trip\<close>

text \<open>Reading back what \<open>stringify_val\<close> wrote: strings, numbers, then nested values.\<close>

lemma hex_val_hex_digit: "d < 16 \<Longrightarrow> hex_val (hex_digit d) = Some d"
  by (auto simp: hex_val_def hex_digit_def is_digit_def less_eq_char_def)

lemma hex4_escape:
  assumes "n < 32"
  shows "hex4 (CHR ''0'') (CHR ''0'') (hex_digit (n div 16)) (hex_digit (n mod 16)) = Some n"
proof -
  have a: "hex_val (hex_digit (n div 16)) = Some (n div 16)"
    using assms by (intro hex_val_hex_digit) simp
  have b: "hex_val (hex_digit (n mod 16)) = Some (n mod 16)"
    by (intro hex_val_hex_digit) simp
  have z: "hex_val (CHR ''0'') = Some 0"
    by (simp add: hex_val_def is_digit_def less_eq_char_def)
  show ?thesis by (simp add: hex4_def a b z)
qed

lemma utf8_small: "n < 128 \<Longrightarrow> utf8 n = [char_of n]"
  by (simp add: utf8_def)

lemma parse_chars_escape:
  assumes "parse_chars rest = Some (s, r)"
  shows "parse_chars (escape_char c @ rest) = Some (c # s, r)"
proof -
  consider (q) "c = quote_c" | (b) "c = backslash_c" | (c8) "c = CHR 0x08" | (c9) "c = CHR 0x09"
    | (cA) "c = CHR 0x0A" | (cC) "c = CHR 0x0C" | (cD) "c = CHR 0x0D"
    | (ctl) "c \<noteq> quote_c" "c \<noteq> backslash_c" "c \<noteq> CHR 0x08" "c \<noteq> CHR 0x09" "c \<noteq> CHR 0x0A"
        "c \<noteq> CHR 0x0C" "c \<noteq> CHR 0x0D" "(of_char c :: nat) < 32"
    | (plain) "c \<noteq> quote_c" "c \<noteq> backslash_c" "\<not> (of_char c :: nat) < 32"
    by (cases "(of_char c :: nat) < 32") auto
  then show ?thesis
  proof cases
    case q
    then show ?thesis using assms
      by (simp add: escape_char_def unescape_def quote_c_def backslash_c_def)
  next
    case b
    then show ?thesis using assms
      by (simp add: escape_char_def unescape_def quote_c_def backslash_c_def)
  next
    case c8
    then show ?thesis using assms
      by (simp add: escape_char_def unescape_def quote_c_def backslash_c_def)
  next
    case c9
    then show ?thesis using assms
      by (simp add: escape_char_def unescape_def quote_c_def backslash_c_def)
  next
    case cA
    then show ?thesis using assms
      by (simp add: escape_char_def unescape_def quote_c_def backslash_c_def)
  next
    case cC
    then show ?thesis using assms
      by (simp add: escape_char_def unescape_def quote_c_def backslash_c_def)
  next
    case cD
    then show ?thesis using assms
      by (simp add: escape_char_def unescape_def quote_c_def backslash_c_def)
  next
    case ctl
    have h: "hex4 (CHR ''0'') (CHR ''0'') (hex_digit (of_char c div 16)) (hex_digit (of_char c mod 16))
             = Some (of_char c)"
      using ctl(8) by (rule hex4_escape)
    have u: "utf8 (of_char c) = [c]"
      using ctl(8) by (simp add: utf8_small)
    have e: "escape_char c = [backslash_c, CHR ''u'', CHR ''0'', CHR ''0'',
              hex_digit (of_char c div 16), hex_digit (of_char c mod 16)]"
      using ctl by (simp add: escape_char_def)
    show ?thesis using assms
      by (simp add: e h u quote_c_def backslash_c_def)
  next
    case plain
    then have e: "escape_char c = [c]"
      by (auto simp: escape_char_def)
    show ?thesis using assms plain by (simp add: e)
  qed
qed

lemma parse_chars_body:
  "parse_chars (concat (map escape_char s) @ quote_c # rest) = Some (s, rest)"
proof (induction s)
  case Nil
  show ?case by simp
next
  case (Cons c s)
  have "parse_chars (escape_char c @ (concat (map escape_char s) @ quote_c # rest)) = Some (c # s, rest)"
    using Cons by (rule parse_chars_escape)
  then show ?case by simp
qed

lemma parse_chars_quote_string:
  "quote_string s @ rest = quote_c # concat (map escape_char s) @ quote_c # rest"
  by (simp add: quote_string_def)

definition number_end :: "string \<Rightarrow> bool" where
  "number_end rest =
     (case rest of
        [] \<Rightarrow> True
      | c # cs \<Rightarrow> \<not> is_digit c \<and> c \<noteq> CHR ''.'' \<and> c \<noteq> CHR ''e'' \<and> c \<noteq> CHR ''E'')"

definition value_start :: "char \<Rightarrow> bool" where
  "value_start c = (c = CHR ''{'' \<or> c = CHR ''['' \<or> c = quote_c \<or> c = CHR ''n'' \<or> c = CHR ''t''
     \<or> c = CHR ''f'' \<or> c = CHR ''-'' \<or> is_digit c)"

lemma is_digit_char_of: "(d::nat) < 10 \<Longrightarrow> is_digit (char_of (48 + d))"
  by (simp add: is_digit_def less_eq_char_def)

lemma digit_val_char_of: "(d::nat) < 10 \<Longrightarrow> digit_val (char_of (48 + d)) = int d"
  by (simp add: digit_val_def)

lemma char_of_48_eq_zero: "(d::nat) < 10 \<Longrightarrow> (char_of (48 + d) = CHR ''0'') = (d = 0)"
proof -
  assume d: "d < 10"
  have a: "(of_char (char_of (48 + d)) :: nat) = 48 + d" using d by simp
  have b: "(of_char (CHR ''0'') :: nat) = 48" by simp
  show ?thesis
  proof
    assume "char_of (48 + d) = CHR ''0''"
    with a b show "d = 0" by simp
  next
    assume "d = 0"
    moreover have "char_of (48::nat) = CHR ''0''" by code_simp
    ultimately show "char_of (48 + d) = CHR ''0''" by simp
  qed
qed

lemma show_nat_digits: "list_all is_digit (show_nat n)"
proof (induction n rule: show_nat.induct)
  case (1 n)
  show ?case
  proof (cases "n < 10")
    case True
    then show ?thesis by (subst show_nat.simps) (simp add: is_digit_char_of)
  next
    case False
    with 1 have "list_all is_digit (show_nat (n div 10))" by simp
    moreover have "is_digit (char_of (48 + n mod 10))" by (rule is_digit_char_of) simp
    ultimately show ?thesis using False by (subst show_nat.simps) simp
  qed
qed

lemma show_nat_nonempty: "show_nat n \<noteq> []"
  by (subst show_nat.simps) simp

lemma show_nat_hd: "hd (show_nat n) = CHR ''0'' \<Longrightarrow> n = 0"
proof (induction n rule: show_nat.induct)
  case (1 n)
  show ?case
  proof (cases "n < 10")
    case True
    with 1(2) have "char_of (48 + n) = CHR ''0''" by (subst (asm) show_nat.simps) simp
    with True show ?thesis by (simp add: char_of_48_eq_zero)
  next
    case False
    with 1(2) have "hd (show_nat (n div 10)) = CHR ''0''"
      by (subst (asm) show_nat.simps) (simp add: show_nat_nonempty)
    with 1(1) False have "n div 10 = 0" by simp
    with False show ?thesis by simp
  qed
qed

lemma show_nat_length_one: "n < 10 \<Longrightarrow> length (show_nat n) = 1"
  by (subst show_nat.simps) simp

lemma show_nat_valid: "\<not> (1 < length (show_nat n) \<and> hd (show_nat n) = CHR ''0'')"
proof
  assume a: "1 < length (show_nat n) \<and> hd (show_nat n) = CHR ''0''"
  then have "n = 0" using show_nat_hd by blast
  then have "length (show_nat n) = 1" by (simp add: show_nat_length_one)
  with a show False by simp
qed

lemma int_of_digits_snoc: "int_of_digits (xs @ [c]) = 10 * int_of_digits xs + digit_val c"
  by (simp add: int_of_digits_def)

lemma int_of_digits_show_nat: "int_of_digits (show_nat n) = int n"
proof (induction n rule: show_nat.induct)
  case (1 n)
  show ?case
  proof (cases "n < 10")
    case True
    then show ?thesis
      by (subst show_nat.simps) (simp add: int_of_digits_def digit_val_char_of)
  next
    case False
    with 1 have ih: "int_of_digits (show_nat (n div 10)) = int (n div 10)" by simp
    have "int_of_digits (show_nat (n div 10) @ [char_of (48 + n mod 10)])
          = 10 * int (n div 10) + int (n mod 10)"
      by (simp add: int_of_digits_snoc ih digit_val_char_of)
    also have "\<dots> = int n"
    proof -
      have "int (10 * (n div 10) + n mod 10) = int n" by (simp only: mult_div_mod_eq)
      then show ?thesis by (simp only: of_nat_add of_nat_mult of_nat_numeral)
    qed
    finally show ?thesis using False by (subst show_nat.simps) simp
  qed
qed

lemma takeWhile_digits:
  "list_all is_digit ds \<Longrightarrow> number_end rest \<Longrightarrow> takeWhile is_digit (ds @ rest) = ds"
  by (induction ds) (auto simp: number_end_def split: list.splits)

lemma dropWhile_digits:
  "list_all is_digit ds \<Longrightarrow> number_end rest \<Longrightarrow> dropWhile is_digit (ds @ rest) = rest"
  by (induction ds) (auto simp: number_end_def split: list.splits)

lemma parse_frac_end: "number_end rest \<Longrightarrow> parse_frac rest = Some ([], rest)"
  by (auto simp: parse_frac_def number_end_def split: list.splits)

lemma parse_exp_end: "number_end rest \<Longrightarrow> parse_exp rest = Some ([], rest)"
  by (auto simp: parse_exp_def number_end_def split: list.splits)

lemma parse_unsigned_digits:
  assumes "number_end rest"
  shows "parse_unsigned neg (show_nat n @ rest)
         = Some (JNum (if neg then - int n else int n), rest)"
proof -
  have tw: "takeWhile is_digit (show_nat n @ rest) = show_nat n"
    using show_nat_digits assms by (rule takeWhile_digits)
  have dw: "dropWhile is_digit (show_nat n @ rest) = rest"
    using show_nat_digits assms by (rule dropWhile_digits)
  show ?thesis
    unfolding parse_unsigned_def
    using show_nat_valid [of n] show_nat_nonempty [of n] assms
    by (simp add: tw dw Let_def parse_frac_end parse_exp_end int_of_digits_show_nat)
qed

lemma show_nat_first: "\<exists>c cs. show_nat n = c # cs \<and> is_digit c"
proof -
  obtain c cs where sn: "show_nat n = c # cs"
    using show_nat_nonempty [of n] by (cases "show_nat n") auto
  have "list_all is_digit (show_nat n)" by (rule show_nat_digits)
  with sn have "is_digit c" by simp
  with sn show ?thesis by simp
qed

lemma is_digit_not_minus: "is_digit c \<Longrightarrow> c \<noteq> CHR ''-''"
  by (auto simp: is_digit_def less_eq_char_def)

lemma parse_number_show_int:
  assumes "number_end rest"
  shows "parse_number (show_int i @ rest) = Some (JNum i, rest)"
proof (cases "i < 0")
  case False
  obtain c cs where sn: "show_nat (nat i) = c # cs" and d: "is_digit c"
    using show_nat_first by blast
  have "parse_number ((c # cs) @ rest) = parse_unsigned False ((c # cs) @ rest)"
    using is_digit_not_minus [OF d] by (simp add: parse_number_def)
  then show ?thesis
    using False parse_unsigned_digits [OF assms, of False "nat i"]
    by (simp add: show_int_def sn)
next
  case True
  then show ?thesis
    using parse_unsigned_digits [OF assms, of True "nat (- i)"]
    by (simp add: show_int_def parse_number_def)
qed

lemma show_int_first: "\<exists>c cs. show_int i = c # cs \<and> (c = CHR ''-'' \<or> is_digit c)"
proof (cases "i < 0")
  case True
  then show ?thesis by (simp add: show_int_def)
next
  case False
  obtain c cs where sn: "show_nat (nat i) = c # cs"
    using show_nat_nonempty [of "nat i"] by (cases "show_nat (nat i)") auto
  have "list_all is_digit (show_nat (nat i))" by (rule show_nat_digits)
  with sn have "is_digit c" by simp
  with sn False show ?thesis by (simp add: show_int_def)
qed

lemma skip_ws_Cons: "\<not> is_ws c \<Longrightarrow> skip_ws (c # cs) = c # cs"
  by (simp add: skip_ws_def)

lemma value_start_not_ws: "value_start c \<Longrightarrow> \<not> is_ws c"
  by (auto simp: value_start_def is_ws_def quote_c_def is_digit_def less_eq_char_def)

lemma value_start_not_close: "value_start c \<Longrightarrow> c \<noteq> CHR '']'' \<and> c \<noteq> CHR ''}''"
  by (auto simp: value_start_def quote_c_def is_digit_def less_eq_char_def)

lemma stringify_val_start:
  "json_plain v \<Longrightarrow> \<exists>c cs. stringify_val v = c # cs \<and> value_start c"
proof (cases v)
  case (JNum i)
  obtain c cs where "show_int i = c # cs" "c = CHR ''-'' \<or> is_digit c"
    using show_int_first by blast
  with JNum show ?thesis by (auto simp: value_start_def)
next
  case (JArr xs)
  then show ?thesis by (cases xs) (auto simp: value_start_def)
qed (auto simp: value_start_def quote_string_def)

lemma number_end_elems: "number_end (stringify_elems xs @ rest)"
  by (cases xs) (auto simp: number_end_def is_digit_def less_eq_char_def)

lemma number_end_members:
  "list_all (\<lambda>kv. json_plain (snd kv)) kvs \<Longrightarrow> number_end (stringify_members False kvs @ rest)"
  by (cases kvs) (auto simp: number_end_def is_digit_def less_eq_char_def)

lemma parse_value_literal:
  "parse_value (Suc n) (''null'' @ rest) = Some (JNull, rest)"
  "parse_value (Suc n) (''true'' @ rest) = Some (JBool True, rest)"
  "parse_value (Suc n) (''false'' @ rest) = Some (JBool False, rest)"
  by (simp_all add: skip_ws_def is_ws_def quote_c_def)

lemma parse_value_string:
  "parse_value (Suc n) (quote_string s @ rest) = Some (JStr s, rest)"
proof -
  have "\<not> is_ws quote_c" by (simp add: is_ws_def quote_c_def)
  then have "skip_ws (quote_string s @ rest) = quote_c # concat (map escape_char s) @ quote_c # rest"
    by (simp add: quote_string_def skip_ws_Cons)
  moreover have "quote_c \<noteq> CHR ''{''" "quote_c \<noteq> CHR ''[''" by (simp_all add: quote_c_def)
  ultimately show ?thesis by (simp add: parse_chars_body)
qed

lemma parse_value_number:
  assumes "number_end rest"
  shows "parse_value (Suc n) (show_int i @ rest) = Some (JNum i, rest)"
proof -
  obtain c cs where si: "show_int i = c # cs" and c: "c = CHR ''-'' \<or> is_digit c"
    using show_int_first by blast
  from c have nws: "\<not> is_ws c" and n1: "c \<noteq> CHR ''{''" and n2: "c \<noteq> CHR ''[''" and n3: "c \<noteq> quote_c"
    and n4: "c \<noteq> CHR ''n''" and n5: "c \<noteq> CHR ''t''" and n6: "c \<noteq> CHR ''f''"
    by (auto simp: is_ws_def quote_c_def is_digit_def less_eq_char_def)
  have "parse_value (Suc n) ((c # cs) @ rest) = parse_number ((c # cs) @ rest)"
    using nws n1 n2 n3 n4 n5 n6 by (simp add: skip_ws_Cons)
  then show ?thesis
    using parse_number_show_int [OF assms, of i] by (simp add: si)
qed

lemma parse_elems_roundtrip:
  assumes "\<And>x n rest. x \<in> set xs \<Longrightarrow> length (stringify_val x) < n \<Longrightarrow> number_end rest
             \<Longrightarrow> parse_value n (stringify_val x @ rest) = Some (x, rest)"
  shows "length (stringify_elems xs) < n \<Longrightarrow> parse_elems n (stringify_elems xs @ rest) = Some (xs, rest)"
  using assms
proof (induction xs arbitrary: n)
  case Nil
  then obtain m where n: "n = Suc m" by (cases n) auto
  show ?case by (simp add: n skip_ws_def is_ws_def)
next
  case (Cons x xs)
  from Cons.prems(1) obtain m where n: "n = Suc m" by (cases n) auto
  from Cons.prems(1) n have lx: "length (stringify_val x) < m"
    and lxs: "length (stringify_elems xs) < m" by simp_all
  have pv: "parse_value m (stringify_val x @ (stringify_elems xs @ rest))
            = Some (x, stringify_elems xs @ rest)"
    using lx number_end_elems by (intro Cons.prems(2)) simp_all
  have pe: "parse_elems m (stringify_elems xs @ rest) = Some (xs, rest)"
    using lxs Cons.prems(2) by (intro Cons.IH) simp_all
  show ?case
    using pv pe by (simp add: n skip_ws_def is_ws_def)
qed

lemma parse_member_roundtrip:
  assumes "length (stringify_val v) < n" "number_end rest"
    and "\<And>n rest. length (stringify_val v) < n \<Longrightarrow> number_end rest
             \<Longrightarrow> parse_value n (stringify_val v @ rest) = Some (v, rest)"
  shows "parse_member (Suc n) (quote_string k @ CHR '':'' # stringify_val v @ rest) = Some ((k, v), rest)"
proof -
  have "\<not> is_ws quote_c" by (simp add: is_ws_def quote_c_def)
  then have sk: "skip_ws (quote_string k @ CHR '':'' # stringify_val v @ rest)
      = quote_c # concat (map escape_char k) @ quote_c # (CHR '':'' # stringify_val v @ rest)"
    by (simp add: quote_string_def skip_ws_Cons)
  have pc: "parse_chars (concat (map escape_char k) @ quote_c # (CHR '':'' # stringify_val v @ rest))
      = Some (k, CHR '':'' # stringify_val v @ rest)"
    by (rule parse_chars_body)
  have sc: "skip_ws (CHR '':'' # stringify_val v @ rest) = CHR '':'' # stringify_val v @ rest"
    by (simp add: skip_ws_def is_ws_def)
  have pv: "parse_value n (stringify_val v @ rest) = Some (v, rest)"
    using assms by blast
  show ?thesis
    by (simp add: sk pc sc pv del: append_assoc)
qed

lemma stringify_members_plain:
  "json_plain v \<Longrightarrow> stringify_members first ((k, v) # kvs) =
     (if first then [] else '','') @ quote_string k @ CHR '':'' # stringify_val v
        @ stringify_members False kvs"
  by (cases v) auto

lemma parse_members_roundtrip:
  assumes "list_all (\<lambda>kv. json_plain (snd kv)) kvs"
    and "\<And>kv n rest. kv \<in> set kvs \<Longrightarrow> length (stringify_val (snd kv)) < n \<Longrightarrow> number_end rest
             \<Longrightarrow> parse_value n (stringify_val (snd kv) @ rest) = Some (snd kv, rest)"
  shows "length (stringify_members False kvs) < n
         \<Longrightarrow> parse_members n (stringify_members False kvs @ rest) = Some (kvs, rest)"
  using assms
proof (induction kvs arbitrary: n)
  case Nil
  then obtain m where n: "n = Suc m" by (cases n) auto
  show ?case by (simp add: n skip_ws_def is_ws_def)
next
  case (Cons kv kvs)
  obtain k v where kv: "kv = (k, v)" by (cases kv)
  from Cons.prems(2) kv have pl: "json_plain v" and pls: "list_all (\<lambda>kv. json_plain (snd kv)) kvs"
    by simp_all
  have sm: "stringify_members False (kv # kvs)
      = CHR '','' # quote_string k @ CHR '':'' # stringify_val v @ stringify_members False kvs"
  proof -
    from pl have "v \<noteq> JUndefined" by auto
    then show ?thesis by (simp add: kv)
  qed
  have ql: "2 \<le> length (quote_string k)" by (simp add: quote_string_def)
  from Cons.prems(1) obtain m where n: "n = Suc m" by (cases n) auto
  from Cons.prems(1) sm n ql obtain m' where m: "m = Suc m'" by (cases m) auto
  from Cons.prems(1) sm n m ql have lv: "length (stringify_val v) < m'"
    and lk: "length (stringify_members False kvs) < m" by simp_all
  have pm: "parse_member m (quote_string k @ CHR '':'' # stringify_val v
               @ (stringify_members False kvs @ rest))
            = Some ((k, v), stringify_members False kvs @ rest)"
    unfolding m
  proof (rule parse_member_roundtrip)
    show "length (stringify_val v) < m'" by (rule lv)
    show "number_end (stringify_members False kvs @ rest)" using pls by (rule number_end_members)
    show "\<And>n rest. length (stringify_val v) < n \<Longrightarrow> number_end rest
             \<Longrightarrow> parse_value n (stringify_val v @ rest) = Some (v, rest)"
      using Cons.prems(3) [of kv] by (simp add: kv)
  qed
  have pms: "parse_members m (stringify_members False kvs @ rest) = Some (kvs, rest)"
    using lk pls Cons.prems(3) by (intro Cons.IH) simp_all
  have e: "stringify_members False (kv # kvs) @ rest
           = CHR '','' # (quote_string k @ CHR '':'' # stringify_val v
               @ (stringify_members False kvs @ rest))"
    by (simp add: sm)
  have "parse_members (Suc m) (CHR '','' # (quote_string k @ CHR '':'' # stringify_val v
               @ (stringify_members False kvs @ rest))) = Some ((k, v) # kvs, rest)"
    using pm pms by (simp add: skip_ws_def is_ws_def)
  then show ?case
    unfolding e n by (simp only: kv)
qed

lemma insert_index_append:
  "\<forall>kv \<in> set kvs. is_index (fst kv) \<and> int_of_digits (fst kv) < int_of_digits k
   \<Longrightarrow> insert_index k v kvs = kvs @ [(k, v)]"
  by (induction kvs) auto

lemma obj_ordered_butlast: "obj_ordered (kvs @ [kv]) \<Longrightarrow> obj_ordered kvs"
  by (simp add: obj_ordered_def sorted_wrt_append)

lemma obj_define_snoc:
  assumes "obj_ordered (kvs @ [(k, v)])"
  shows "obj_define kvs k v = kvs @ [(k, v)]"
proof -
  from assms have notin: "k \<notin> fst ` set kvs"
    and before: "\<forall>a \<in> set (map fst kvs). key_before a k"
    by (auto simp: obj_ordered_def sorted_wrt_append)
  show ?thesis
  proof (cases "is_index k")
    case True
    with before have "\<forall>kv \<in> set kvs. is_index (fst kv) \<and> int_of_digits (fst kv) < int_of_digits k"
      by (auto simp: key_before_def split: if_splits)
    then have "insert_index k v kvs = kvs @ [(k, v)]" by (rule insert_index_append)
    with True notin show ?thesis by (simp add: obj_define_def)
  next
    case False
    with notin show ?thesis by (simp add: obj_define_def)
  qed
qed

lemma build_object_ordered: "obj_ordered kvs \<Longrightarrow> build_object kvs = JObj kvs"
proof -
  have "obj_ordered kvs \<Longrightarrow> foldl (\<lambda>obj kv. obj_define obj (fst kv) (snd kv)) [] kvs = kvs"
  proof (induction kvs rule: rev_induct)
    case Nil
    show ?case by simp
  next
    case (snoc kv kvs)
    from snoc.prems have "obj_ordered kvs" by (rule obj_ordered_butlast)
    with snoc.IH have ih: "foldl (\<lambda>obj kv. obj_define obj (fst kv) (snd kv)) [] kvs = kvs" by simp
    from snoc.prems have "obj_define kvs (fst kv) (snd kv) = kvs @ [(fst kv, snd kv)]"
      by (intro obj_define_snoc) simp
    with ih show ?case by simp
  qed
  then show "obj_ordered kvs \<Longrightarrow> build_object kvs = JObj kvs"
    by (simp add: build_object_def)
qed

lemma parse_value_roundtrip:
  "json_plain v \<Longrightarrow> length (stringify_val v) < n \<Longrightarrow> number_end rest
   \<Longrightarrow> parse_value n (stringify_val v @ rest) = Some (v, rest)"
proof (induction v arbitrary: n rest)
  case JUndefined
  then show ?case by simp
next
  case JNull
  then obtain m where "n = Suc m" by (cases n) auto
  then show ?case using parse_value_literal(1) [of m rest] by simp
next
  case (JBool b)
  then obtain m where "n = Suc m" by (cases n) auto
  then show ?case
    using parse_value_literal(2) [of m rest] parse_value_literal(3) [of m rest] by (cases b) simp_all
next
  case (JNum i)
  then obtain m where "n = Suc m" by (cases n) auto
  then show ?case using parse_value_number [OF JNum.prems(3), of m i] by simp
next
  case (JFloat s)
  then show ?case by simp
next
  case (JStr s)
  then obtain m where "n = Suc m" by (cases n) auto
  then show ?case using parse_value_string [of m s rest] by simp
next
  case (JDate s)
  then show ?case by simp
next
  case (JArr xs)
  from JArr.prems(2) obtain m where n: "n = Suc m" by (cases n) auto
  show ?case
  proof (cases xs)
    case Nil
    then show ?thesis by (simp add: n skip_ws_def is_ws_def)
  next
    case (Cons x xs')
    from JArr.prems(1) Cons have px: "json_plain x" and pxs: "list_all json_plain xs'" by simp_all
    from JArr.prems(2) Cons n have lx: "length (stringify_val x) < m"
      and lxs: "length (stringify_elems xs') < m" by simp_all
    obtain c cs where st: "stringify_val x = c # cs" and vs: "value_start c"
      using stringify_val_start [OF px] by blast
    have pv: "parse_value m (stringify_val x @ (stringify_elems xs' @ rest))
              = Some (x, stringify_elems xs' @ rest)"
      using px lx number_end_elems Cons by (intro JArr.IH) simp_all
    have pe: "parse_elems m (stringify_elems xs' @ rest) = Some (xs', rest)"
    proof (rule parse_elems_roundtrip)
      fix y k r
      assume y: "y \<in> set xs'" and "length (stringify_val y) < k" and "number_end r"
      moreover from y pxs have "json_plain y" by (simp add: list_all_iff)
      ultimately show "parse_value k (stringify_val y @ r) = Some (y, r)"
        using Cons by (intro JArr.IH) simp_all
    qed (rule lxs)
    have sk: "skip_ws (stringify_val x @ (stringify_elems xs' @ rest))
              = c # (cs @ (stringify_elems xs' @ rest))"
      using value_start_not_ws [OF vs] by (simp add: st skip_ws_Cons)
    have "parse_value (Suc m) (CHR ''['' # (stringify_val x @ (stringify_elems xs' @ rest)))
          = Some (JArr (x # xs'), rest)"
    proof -
      have "\<not> is_ws (CHR ''['')" by (simp add: is_ws_def)
      then have "skip_ws (CHR ''['' # (stringify_val x @ (stringify_elems xs' @ rest)))
                 = CHR ''['' # (stringify_val x @ (stringify_elems xs' @ rest))"
        by (rule skip_ws_Cons)
      moreover have "parse_value m (c # (cs @ (stringify_elems xs' @ rest)))
                     = Some (x, stringify_elems xs' @ rest)"
        using pv by (simp add: st)
      ultimately show ?thesis
        using pe value_start_not_close [OF vs] by (simp add: sk)
    qed
    then show ?thesis by (simp add: Cons n)
  qed
next
  case (JObj kvs)
  from JObj.prems(2) obtain m where n: "n = Suc m" by (cases n) auto
  from JObj.prems(1) have ord: "obj_ordered kvs" and pl: "list_all (\<lambda>kv. json_plain (snd kv)) kvs"
    by simp_all
  have ih: "parse_value k (stringify_val (snd kv) @ r) = Some (snd kv, r)"
    if "kv \<in> set kvs" "length (stringify_val (snd kv)) < k" "number_end r" for kv k r
  proof -
    from that(1) pl have "json_plain (snd kv)" by (simp add: list_all_iff)
    moreover have "snd kv \<in> Basic_BNFs.snds kv" by (cases kv) simp
    ultimately show ?thesis using that by (intro JObj.IH) simp_all
  qed
  show ?case
  proof (cases kvs)
    case Nil
    then show ?thesis by (simp add: n skip_ws_def is_ws_def)
  next
    case (Cons kv kvs')
    obtain k v where kv: "kv = (k, v)" by (cases kv)
    from pl Cons kv have pv: "json_plain v" and pls: "list_all (\<lambda>kv. json_plain (snd kv)) kvs'"
      by simp_all
    from pv have nu: "v \<noteq> JUndefined" by auto
    have sv: "stringify_val (JObj kvs)
        = CHR ''{'' # (quote_string k @ CHR '':'' # stringify_val v @ stringify_members False kvs')"
      using nu by (simp add: Cons kv)
    have ql: "2 \<le> length (quote_string k)" by (simp add: quote_string_def)
    from JObj.prems(2) sv n ql obtain m' where m: "m = Suc m'" by (cases m) auto
    from JObj.prems(2) sv n m ql have lv: "length (stringify_val v) < m'"
      and lk: "length (stringify_members False kvs') < m" by simp_all
    have pm: "parse_member m (quote_string k @ CHR '':'' # stringify_val v
                 @ (stringify_members False kvs' @ rest))
              = Some ((k, v), stringify_members False kvs' @ rest)"
      unfolding m
    proof (rule parse_member_roundtrip)
      show "length (stringify_val v) < m'" by (rule lv)
      show "number_end (stringify_members False kvs' @ rest)" using pls by (rule number_end_members)
      show "\<And>n rest. length (stringify_val v) < n \<Longrightarrow> number_end rest
               \<Longrightarrow> parse_value n (stringify_val v @ rest) = Some (v, rest)"
        using ih [of kv] by (simp add: kv Cons)
    qed
    have pms: "parse_members m (stringify_members False kvs' @ rest) = Some (kvs', rest)"
      using pls lk ih by (intro parse_members_roundtrip) (simp_all add: Cons)
    have q: "quote_string k @ CHR '':'' # stringify_val v @ (stringify_members False kvs' @ rest)
             = quote_c # (concat (map escape_char k) @ quote_c # CHR '':'' # stringify_val v
                 @ (stringify_members False kvs' @ rest))"
      by (simp add: quote_string_def)
    have qn: "\<not> is_ws quote_c" "quote_c \<noteq> CHR ''}''" by (simp_all add: is_ws_def quote_c_def)
    have "parse_value (Suc m) (CHR ''{'' # (quote_string k @ CHR '':'' # stringify_val v
                 @ (stringify_members False kvs' @ rest)))
          = Some (build_object ((k, v) # kvs'), rest)"
    proof -
      have "\<not> is_ws (CHR ''{'')" by (simp add: is_ws_def)
      then have "skip_ws (CHR ''{'' # (quote_string k @ CHR '':'' # stringify_val v
                 @ (stringify_members False kvs' @ rest)))
                 = CHR ''{'' # (quote_string k @ CHR '':'' # stringify_val v
                 @ (stringify_members False kvs' @ rest))"
        by (rule skip_ws_Cons)
      moreover have "skip_ws (quote_string k @ CHR '':'' # stringify_val v
                 @ (stringify_members False kvs' @ rest))
                 = quote_c # (concat (map escape_char k) @ quote_c # CHR '':'' # stringify_val v
                 @ (stringify_members False kvs' @ rest))"
        unfolding q using qn(1) by (rule skip_ws_Cons)
      moreover note pm [unfolded q] pms qn(2)
      ultimately show ?thesis by simp
    qed
    moreover have "build_object ((k, v) # kvs') = JObj kvs"
      using ord by (simp add: build_object_ordered Cons kv)
    ultimately show ?thesis
      unfolding sv n by simp
  qed
qed

lemma json_image_defined [simp]: "json_image v \<noteq> JUndefined"
  by (cases v) simp_all

lemma stringify_elems_image:
  "(\<And>x. x \<in> set xs \<Longrightarrow> stringify_val (json_image x) = stringify_val x)
   \<Longrightarrow> stringify_elems (map json_image xs) = stringify_elems xs"
  by (induction xs) simp_all

lemma stringify_members_image:
  "(\<And>kv. kv \<in> set kvs \<Longrightarrow> stringify_val (json_image (snd kv)) = stringify_val (snd kv))
   \<Longrightarrow> stringify_members first
         (map (\<lambda>kv. (fst kv, json_image (snd kv))) (filter (\<lambda>kv. snd kv \<noteq> JUndefined) kvs))
       = stringify_members first kvs"
proof (induction kvs arbitrary: first)
  case Nil
  show ?case by simp
next
  case (Cons kv kvs)
  obtain k v where kv: "kv = (k, v)" by (cases kv)
  have ih: "stringify_members b
         (map (\<lambda>kv. (fst kv, json_image (snd kv))) (filter (\<lambda>kv. snd kv \<noteq> JUndefined) kvs))
       = stringify_members b kvs" for b
    using Cons.prems by (intro Cons.IH) simp_all
  have v: "stringify_val (json_image v) = stringify_val v"
    using Cons.prems [of kv] by (simp add: kv)
  show ?case by (simp add: kv ih v)
qed

lemma stringify_val_image: "stringify_val (json_image v) = stringify_val v"
proof (induction v)
  case (JArr xs)
  show ?case
  proof (cases xs)
    case Nil
    then show ?thesis by simp
  next
    case (Cons x xs')
    have "stringify_elems (map json_image xs') = stringify_elems xs'"
      using JArr Cons by (intro stringify_elems_image) simp_all
    moreover have "stringify_val (json_image x) = stringify_val x"
      using JArr Cons by simp
    ultimately show ?thesis using Cons by simp
  qed
next
  case (JObj kvs)
  have "stringify_members True
         (map (\<lambda>kv. (fst kv, json_image (snd kv))) (filter (\<lambda>kv. snd kv \<noteq> JUndefined) kvs))
       = stringify_members True kvs"
  proof (rule stringify_members_image)
    fix kv assume "kv \<in> set kvs"
    moreover have "snd kv \<in> Basic_BNFs.snds kv" by (cases kv) simp
    ultimately show "stringify_val (json_image (snd kv)) = stringify_val (snd kv)"
      by (rule JObj.IH)
  qed
  then show ?case by simp
qed simp_all

lemma obj_ordered_image:
  assumes "obj_ordered kvs"
  shows "obj_ordered (map (\<lambda>kv. (fst kv, json_image (snd kv))) (filter (\<lambda>kv. snd kv \<noteq> JUndefined) kvs))"
proof -
  have k: "map fst (map (\<lambda>kv. (fst kv, json_image (snd kv))) (filter (\<lambda>kv. snd kv \<noteq> JUndefined) kvs))
           = map fst (filter (\<lambda>kv. snd kv \<noteq> JUndefined) kvs)"
    by simp
  from assms have "distinct (map fst kvs)" and "sorted_wrt (\<lambda>x y. key_before (fst x) (fst y)) kvs"
    by (simp_all add: obj_ordered_def sorted_wrt_map)
  then have "distinct (map fst (filter (\<lambda>kv. snd kv \<noteq> JUndefined) kvs))"
    and "sorted_wrt (\<lambda>x y. key_before (fst x) (fst y)) (filter (\<lambda>kv. snd kv \<noteq> JUndefined) kvs)"
    by (simp_all add: distinct_map_filter sorted_wrt_filter)
  then show ?thesis
    unfolding obj_ordered_def k by (simp add: sorted_wrt_map)
qed

lemma json_plain_image: "js_wf v \<Longrightarrow> json_plain (json_image v)"
proof (induction v)
  case (JArr xs)
  then show ?case by (auto simp: list_all_iff)
next
  case (JObj kvs)
  from JObj.prems have ord: "obj_ordered kvs" and wf: "list_all (\<lambda>kv. js_wf (snd kv)) kvs"
    by simp_all
  have "json_plain (json_image (snd kv))" if "kv \<in> set kvs" for kv
  proof -
    from that wf have "js_wf (snd kv)" by (simp add: list_all_iff)
    moreover have "snd kv \<in> Basic_BNFs.snds kv" by (cases kv) simp
    ultimately show ?thesis using that by (intro JObj.IH)
  qed
  then show ?case
    using obj_ordered_image [OF ord] by (auto simp: list_all_iff)
qed simp_all

lemma json_image_plain: "json_plain v \<Longrightarrow> json_image v = v"
proof (induction v)
  case (JArr xs)
  then have "map json_image xs = xs"
    by (intro map_idI) (simp add: list_all_iff)
  then show ?case by simp
next
  case (JObj kvs)
  from JObj.prems have pl: "list_all (\<lambda>kv. json_plain (snd kv)) kvs" by simp
  have nu: "snd kv \<noteq> JUndefined" if "kv \<in> set kvs" for kv
    using that pl by (auto simp: list_all_iff)
  then have f: "filter (\<lambda>kv. snd kv \<noteq> JUndefined) kvs = kvs" by (simp add: filter_id_conv)
  have "(fst kv, json_image (snd kv)) = kv" if "kv \<in> set kvs" for kv
  proof -
    from that pl have "json_plain (snd kv)" by (simp add: list_all_iff)
    moreover have "snd kv \<in> Basic_BNFs.snds kv" by (cases kv) simp
    ultimately have "json_image (snd kv) = snd kv" using that by (intro JObj.IH)
    then show ?thesis by simp
  qed
  then have "map (\<lambda>kv. (fst kv, json_image (snd kv))) kvs = kvs" by (intro map_idI)
  with f show ?case by simp
qed simp_all

lemma JSON_parse_stringify_plain: "json_plain v \<Longrightarrow> JSON_parse (stringify_val v) = Some v"
proof -
  assume p: "json_plain v"
  have "parse_value (2 * length (stringify_val v) + 2) (stringify_val v @ []) = Some (v, [])"
    using p by (intro parse_value_roundtrip) (simp_all add: number_end_def)
  then show ?thesis by (simp add: JSON_parse_def skip_ws_def)
qed

lemma JSON_parse_stringify: "js_wf v \<Longrightarrow> JSON_parse (stringify_val v) = Some (json_image v)"
  using JSON_parse_stringify_plain [OF json_plain_image, of v] by (simp add: stringify_val_image)

lemma stringify_val_nonempty: "js_wf v \<Longrightarrow> stringify_val v \<noteq> []"
proof -
  assume "js_wf v"
  then have "json_plain (json_image v)" by (rule json_plain_image)
  then obtain c cs where "stringify_val (json_image v) = c # cs"
    using stringify_val_start by blast
  then show ?thesis by (simp add: stringify_val_image)
qed

lemma roundtrip_image: "encodable v \<Longrightarrow> roundtrip v = Some (json_image v)"
  by (simp add: roundtrip_def encodable_def JSON_stringify_def JSON_parse_stringify)

lemma decode_encode:
  assumes "encodable v"
  shows "decode_entry (Some \<lparr>payload = encode v, ttl = seconds\<rparr>) = json_image v"
proof -
  from assms have wf: "js_wf v" and nu: "v \<noteq> JUndefined" by (simp_all add: encodable_def)
  have e: "encode v = stringify_val v" using nu by (simp add: encode_def JSON_stringify_def)
  show ?thesis
    using stringify_val_nonempty [OF wf] JSON_parse_stringify [OF wf]
    by (simp add: decode_entry_def e)
qed

lemma write_then_read:
  assumes "ready client" "encodable v" "0 < seconds"
  shows "getCache (setCache client key v seconds) key = json_image v"
  using assms by (simp add: getCache_cached cached_setCache decode_encode)

section \<open>Search keys\<close>

lemma sort_cong_mset: "mset xs = mset ys \<Longrightarrow> sort xs = sort (ys :: 'a :: linorder list)"
  by (rule properties_for_sort) simp_all

lemma same_pairs_same_keys:
  assumes "distinct (map fst q1)" "distinct (map fst q2)" "set q1 = set q2"
  shows "sort (Object_keys q1) = sort (Object_keys q2)"
proof -
  from assms(1,2) have "distinct q1" "distinct q2" by (simp_all add: distinct_map)
  with assms(3) have "mset q1 = mset q2" by (simp add: set_eq_iff_mset_eq_distinct)
  then have "mset (map fst q1) = mset (map fst q2)" by (metis mset_map)
  then show ?thesis unfolding Object_keys_def by (rule sort_cong_mset)
qed

lemma same_pairs_same_values:
  assumes "distinct (map fst q1)" "distinct (map fst q2)" "set q1 = set q2"
  shows "js_get (JObj q1) k = js_get (JObj q2) k"
proof -
  from assms have "map_of q1 = map_of q2" by (simp add: map_of_inject_set)
  then show ?thesis by simp
qed

lemma same_pairs_same_sortedQuery:
  assumes "distinct (map fst q1)" "distinct (map fst q2)" "set q1 = set q2"
  shows "sortedQuery q1 = sortedQuery q2"
proof -
  have "(\<lambda>obj key. obj_assign obj key (js_get (JObj q1) key))
        = (\<lambda>obj key. obj_assign obj key (js_get (JObj q2) key))"
    using same_pairs_same_values [OF assms] by simp
  then show ?thesis
    unfolding sortedQuery_def using same_pairs_same_keys [OF assms] by simp
qed

lemma same_pairs_same_key:
  assumes "distinct (map fst q1)" "distinct (map fst q2)" "set q1 = set q2"
  shows "generateSearchKey q1 = generateSearchKey q2"
  unfolding generateSearchKey_def using same_pairs_same_sortedQuery [OF assms] by simp

section \<open>Keys matched by the invalidation patterns\<close>

lemma glob_match_star [simp]: "glob_match ''*'' k"
  by (induction k) simp_all

lemma glob_match_literal:
  "\<not> glob_special c \<Longrightarrow>
   glob_match (c # ps) k = (case k of [] \<Rightarrow> False | d # ds \<Rightarrow> c = d \<and> glob_match ps ds)"
  by (cases k) (auto simp: glob_special_def)

lemma glob_match_prefix:
  "glob_free q \<Longrightarrow> glob_match (q @ r) k = (\<exists>ds. k = q @ ds \<and> glob_match r ds)"
proof (induction q arbitrary: k)
  case Nil
  show ?case by simp
next
  case (Cons c q)
  then have c: "\<not> glob_special c" and q: "glob_free q" by (simp_all add: glob_free_def)
  show ?case
  proof (cases k)
    case Nil
    then show ?thesis using c by (simp add: glob_special_def)
  next
    case (Cons d ds)
    have "glob_match ((c # q) @ r) (d # ds) = (c = d \<and> glob_match (q @ r) ds)"
      using glob_match_literal [OF c, of "q @ r" "d # ds"] by simp
    also have "\<dots> = (c = d \<and> (\<exists>es. ds = q @ es \<and> glob_match r es))"
      using Cons.IH [OF q, of ds] by simp
    also have "\<dots> = (\<exists>es. d # ds = (c # q) @ es \<and> glob_match r es)"
      by auto
    finally show ?thesis using Cons by simp
  qed
qed

lemma glob_match_prefix_star: "glob_free q \<Longrightarrow> glob_match (q @ ''*'') k = prefix q k"
  by (auto simp: glob_match_prefix prefix_def)

lemma glob_match_needs_prefix: "glob_free q \<Longrightarrow> glob_match (q @ r) k \<Longrightarrow> prefix q k"
  by (auto simp: glob_match_prefix prefix_def)

lemma glob_free_append [simp]: "glob_free (a @ b) = (glob_free a \<and> glob_free b)"
  by (simp add: glob_free_def)

lemma glob_free_Nil [simp]: "glob_free []"
  by (simp add: glob_free_def)

lemma glob_free_Cons: "glob_free (c # p) = (\<not> glob_special c \<and> glob_free p)"
  by (simp add: glob_free_def)

lemma glob_free_literals [simp]:
  "glob_free ''search:properties:''" "glob_free ''user:properties:''" "glob_free ''user:favorites:''"
  "glob_free ''favorite:status:''" "glob_free '':''"
  by (simp_all add: glob_free_def glob_special_def backslash_c_def)

lemma searches_pattern: "glob_match ''search:properties:*'' k = prefix ''search:properties:'' k"
proof -
  have "glob_match (''search:properties:'' @ ''*'') k = prefix ''search:properties:'' k"
    by (rule glob_match_prefix_star) simp
  then show ?thesis by simp
qed

lemma user_properties_pattern:
  assumes "glob_free u"
  shows "glob_match (''user:properties:'' @ u @ '':*'') k = prefix (''user:properties:'' @ u @ '':'') k"
proof -
  have "glob_match ((''user:properties:'' @ u @ '':'') @ ''*'') k
        = prefix (''user:properties:'' @ u @ '':'') k"
    using assms
    by (intro glob_match_prefix_star) (simp add: glob_free_Cons glob_special_def backslash_c_def)
  then show ?thesis by simp
qed

lemma user_favorites_pattern:
  assumes "glob_free u"
  shows "glob_match (''user:favorites:'' @ u @ '':*'') k = prefix (''user:favorites:'' @ u @ '':'') k"
proof -
  have "glob_match ((''user:favorites:'' @ u @ '':'') @ ''*'') k
        = prefix (''user:favorites:'' @ u @ '':'') k"
    using assms
    by (intro glob_match_prefix_star) (simp add: glob_free_Cons glob_special_def backslash_c_def)
  then show ?thesis by simp
qed

lemma favorite_status_pattern:
  assumes "glob_free u"
  shows "glob_match (''favorite:status:'' @ u @ '':*'') k = prefix (''favorite:status:'' @ u @ '':'') k"
proof -
  have "glob_match ((''favorite:status:'' @ u @ '':'') @ ''*'') k
        = prefix (''favorite:status:'' @ u @ '':'') k"
    using assms
    by (intro glob_match_prefix_star) (simp add: glob_free_Cons glob_special_def backslash_c_def)
  then show ?thesis by simp
qed

lemma pattern_needs_prefix:
  "glob_match (''user:properties:'' @ r) k \<Longrightarrow> prefix ''user:properties:'' k"
  "glob_match (''user:favorites:'' @ r) k \<Longrightarrow> prefix ''user:favorites:'' k"
  "glob_match (''favorite:status:'' @ r) k \<Longrightarrow> prefix ''favorite:status:'' k"
  by (erule glob_match_needs_prefix [rotated], simp)+
section \<open>Effect of the controllers on the cache\<close>

lemma TTL_positive [simp]:
  "0 < TTL_PROPERTY" "0 < TTL_USER" "0 < TTL_SEARCH" "0 < TTL_FAVORITES" "0 < TTL_PROPERTY_LIST"
  by (simp_all add: TTL_PROPERTY_def TTL_USER_def TTL_SEARCH_def TTL_FAVORITES_def
      TTL_PROPERTY_LIST_def)

lemma ready_invalidateFavorites [simp]: "ready (invalidateFavorites client u) = ready client"
  by (simp add: invalidateFavorites_def)

lemma ready_cacheFavoriteStatus [simp]: "ready (cacheFavoriteStatus client u p s) = ready client"
  by (simp add: cacheFavoriteStatus_def)

lemma ready_cacheProperty [simp]: "ready (cacheProperty client p) = ready client"
  by (simp add: cacheProperty_def)

lemma ready_invalidatePropertySearches [simp]: "ready (invalidatePropertySearches client) = ready client"
  by (simp add: invalidatePropertySearches_def)

lemma ready_invalidateUserProperties [simp]: "ready (invalidateUserProperties client u) = ready client"
  by (simp add: invalidateUserProperties_def)

lemma cached_invalidateFavorites:
  "ready client \<Longrightarrow>
   cached (invalidateFavorites client u) k =
     (if glob_match (''user:favorites:'' @ u @ '':*'') k
         \<or> glob_match (''favorite:status:'' @ u @ '':*'') k
      then None else cached client k)"
  by (simp add: invalidateFavorites_def cached_deleteCachePattern)

lemma cached_invalidatePropertySearches:
  "ready client \<Longrightarrow>
   cached (invalidatePropertySearches client) k =
     (if glob_match ''search:properties:*'' k then None else cached client k)"
  by (simp add: invalidatePropertySearches_def cached_deleteCachePattern)

lemma cached_invalidateUserProperties:
  "ready client \<Longrightarrow>
   cached (invalidateUserProperties client u) k =
     (if glob_match (''user:properties:'' @ u @ '':*'') k \<or> glob_match ''search:properties:*'' k
      then None else cached client k)"
  by (simp add: invalidateUserProperties_def cached_invalidatePropertySearches
      cached_deleteCachePattern)

lemma cached_cacheFavoriteStatus:
  "ready client \<Longrightarrow>
   cached (cacheFavoriteStatus client u p s) k =
     (if k = KEYS_FAVORITE_STATUS u p then Some \<lparr>payload = encode s, ttl = TTL_FAVORITES\<rparr>
      else cached client k)"
  by (simp add: cacheFavoriteStatus_def cached_setCache)

lemma failure_code [simp]: "code (failure c msg) = c"
  by (simp add: failure_def)

lemma catch_codes:
  "code (addToFavorites_catch e) \<noteq> 201" "code (addToFavorites_catch e) \<noteq> 200"
  "code (removeFromFavorites_catch e) \<noteq> 200" "code (updateFavorite_catch e) \<noteq> 200"
  "code (property_catch e) \<noteq> 200" "code (property_catch_cast e) \<noteq> 200"
  by (simp_all add: addToFavorites_catch_def removeFromFavorites_catch_def updateFavorite_catch_def
      property_catch_def property_catch_cast_def)

text \<open>What a successful run of each controller does to the cache.\<close>

lemma addToFavorites_success:
  assumes "code (response (addToFavorites M u p notes tags client db)) = 201"
  shows "\<exists>favorite. cache_after (addToFavorites M u p notes tags client db)
           = invalidateFavorites (cacheFavoriteStatus client u p (favorited_status favorite)) u"
  using assms
  by (auto simp: addToFavorites_def catch_codes split: if_splits sum.splits prod.splits)

lemma updateFavorite_success:
  assumes "code (response (updateFavorite M u i notes tags client db)) = 200"
  shows "cache_after (updateFavorite M u i notes tags client db) = invalidateFavorites client u"
  using assms
  by (auto simp: updateFavorite_def catch_codes split: if_splits sum.splits prod.splits)

lemma updateFavorite_failure:
  assumes "code (response (updateFavorite M u i notes tags client db)) \<noteq> 200"
  shows "cache_after (updateFavorite M u i notes tags client db) = client"
  using assms
  by (auto simp: updateFavorite_def catch_codes split: if_splits sum.splits prod.splits)

lemma status_entry_lost_after_add:
  assumes "ready client" "glob_free u"
    and "code (response (addToFavorites M u p notes tags client db)) = 201"
  shows "cached (cache_after (addToFavorites M u p notes tags client db)) (KEYS_FAVORITE_STATUS u p) = None"
proof -
  obtain favorite where c: "cache_after (addToFavorites M u p notes tags client db)
      = invalidateFavorites (cacheFavoriteStatus client u p (favorited_status favorite)) u"
    using addToFavorites_success [OF assms(3)] by blast
  have k: "KEYS_FAVORITE_STATUS u p = (''favorite:status:'' @ u @ '':'') @ p"
    by (simp add: KEYS_FAVORITE_STATUS_def)
  have "prefix (''favorite:status:'' @ u @ '':'') (KEYS_FAVORITE_STATUS u p)"
    unfolding k by (rule prefixI [OF refl])
  then have "glob_match (''favorite:status:'' @ u @ '':*'') (KEYS_FAVORITE_STATUS u p)"
    using favorite_status_pattern [OF assms(2)] by blast
  then show ?thesis
    using assms(1) by (simp add: c cached_invalidateFavorites)
qed

lemma checkPropertyOwnership_codes:
  "checkPropertyOwnership M u p db = Inl res \<Longrightarrow> code res \<noteq> 200"
  by (auto simp: checkPropertyOwnership_def split: if_splits sum.splits)

lemma updateProperty_success:
  assumes "code (response (updateProperty M u p data client db)) = 200"
  shows "\<exists>doc. body (response (updateProperty M u p data client db))
                 = JObj [(''success'', JBool True),
                         (''message'', JStr ''Property updated successfully''),
                         (''property'', propertyResponse doc)]
             \<and> cache_after (updateProperty M u p data client db)
                 = invalidateUserProperties
                     (invalidatePropertySearches (cacheProperty client (propertyResponse doc))) u"
  using assms
  by (auto simp: updateProperty_def catch_codes split: if_splits sum.splits prod.splits)

lemma updateProperty_route_success:
  assumes "code (response (updateProperty_route M u p data client db)) = 200"
  shows "checkPropertyOwnership M u p db = Inr ()
       \<and> (\<exists>doc. body (response (updateProperty_route M u p data client db))
                 = JObj [(''success'', JBool True),
                         (''message'', JStr ''Property updated successfully''),
                         (''property'', propertyResponse doc)]
             \<and> cache_after (updateProperty_route M u p data client db)
                 = invalidateUserProperties
                     (invalidatePropertySearches (cacheProperty client (propertyResponse doc))) u)"
proof (cases "checkPropertyOwnership M u p db")
  case (Inl res)
  with assms checkPropertyOwnership_codes [OF Inl] show ?thesis
    by (simp add: updateProperty_route_def)
next
  case (Inr x)
  with assms have "code (response (updateProperty M u p data client db)) = 200"
    by (simp add: updateProperty_route_def)
  from updateProperty_success [OF this] Inr show ?thesis
    by (simp add: updateProperty_route_def)
qed

lemma property_key_not_invalidated:
  "\<not> glob_match ''search:properties:*'' (KEYS_PROPERTY p)"
  "\<not> glob_match (''user:properties:'' @ r) (KEYS_PROPERTY p)"
proof -
  show "\<not> glob_match ''search:properties:*'' (KEYS_PROPERTY p)"
    by (simp add: searches_pattern KEYS_PROPERTY_def)
  have "\<not> prefix ''user:properties:'' (KEYS_PROPERTY p)" by (simp add: KEYS_PROPERTY_def)
  then show "\<not> glob_match (''user:properties:'' @ r) (KEYS_PROPERTY p)"
    using pattern_needs_prefix(1) by blast
qed

text \<open>Which controllers read the cache before they answer.\<close>

lemma removeFromFavorites_cache_free:
  "response (removeFromFavorites M u p c1 db) = response (removeFromFavorites M u p c2 db)
   \<and> db_after (removeFromFavorites M u p c1 db) = db_after (removeFromFavorites M u p c2 db)
   \<and> db_calls (removeFromFavorites M u p c1 db) = db_calls (removeFromFavorites M u p c2 db)"
  by (simp add: removeFromFavorites_def split: sum.split prod.split)

lemma updateFavorite_cache_free:
  "response (updateFavorite M u i notes tags c1 db) = response (updateFavorite M u i notes tags c2 db)
   \<and> db_after (updateFavorite M u i notes tags c1 db) = db_after (updateFavorite M u i notes tags c2 db)
   \<and> db_calls (updateFavorite M u i notes tags c1 db) = db_calls (updateFavorite M u i notes tags c2 db)"
  by (simp add: updateFavorite_def split: sum.split prod.split)

lemma updateProperty_cache_free:
  "response (updateProperty M u p data c1 db) = response (updateProperty M u p data c2 db)
   \<and> db_after (updateProperty M u p data c1 db) = db_after (updateProperty M u p data c2 db)
   \<and> db_calls (updateProperty M u p data c1 db) = db_calls (updateProperty M u p data c2 db)"
  by (simp add: updateProperty_def split: sum.split prod.split)

lemma updateProperty_route_cache_free:
  "response (updateProperty_route M u p data c1 db) = response (updateProperty_route M u p data c2 db)
   \<and> db_after (updateProperty_route M u p data c1 db) = db_after (updateProperty_route M u p data c2 db)
   \<and> db_calls (updateProperty_route M u p data c1 db) = db_calls (updateProperty_route M u p data c2 db)"
proof (cases "checkPropertyOwnership M u p db")
  case (Inl res)
  then show ?thesis by (simp add: updateProperty_route_def)
next
  case (Inr x)
  with updateProperty_cache_free [of M u p data c1 db c2] show ?thesis
    by (simp add: updateProperty_route_def)
qed

lemma deleteProperty_cache_free:
  "response (deleteProperty M u p c1 db) = response (deleteProperty M u p c2 db)
   \<and> db_after (deleteProperty M u p c1 db) = db_after (deleteProperty M u p c2 db)
   \<and> db_calls (deleteProperty M u p c1 db) = db_calls (deleteProperty M u p c2 db)"
  by (simp add: deleteProperty_def split: sum.split prod.split)

lemma deleteProperty_route_cache_free:
  "response (deleteProperty_route M u p c1 db) = response (deleteProperty_route M u p c2 db)
   \<and> db_after (deleteProperty_route M u p c1 db) = db_after (deleteProperty_route M u p c2 db)
   \<and> db_calls (deleteProperty_route M u p c1 db) = db_calls (deleteProperty_route M u p c2 db)"
proof (cases "checkPropertyOwnership M u p db")
  case (Inl res)
  then show ?thesis by (simp add: deleteProperty_route_def)
next
  case (Inr x)
  with deleteProperty_cache_free [of M u p c1 db c2] show ?thesis
    by (simp add: deleteProperty_route_def)
qed

lemma addToFavorites_cache_free:
  assumes "\<not> says_favorited c1 u p" "\<not> says_favorited c2 u p"
  shows "response (addToFavorites M u p notes tags c1 db) = response (addToFavorites M u p notes tags c2 db)
   \<and> db_after (addToFavorites M u p notes tags c1 db) = db_after (addToFavorites M u p notes tags c2 db)
   \<and> db_calls (addToFavorites M u p notes tags c1 db) = db_calls (addToFavorites M u p notes tags c2 db)"
proof -
  have g: "\<not> (truthy (getCachedFavoriteStatus c u p)
              \<and> truthy (js_get (getCachedFavoriteStatus c u p) ''isFavorited''))"
    if "\<not> says_favorited c u p" for c
    using that by (simp add: says_favorited_def)
  show ?thesis
    unfolding addToFavorites_def
    by (simp only: g [OF assms(1)] g [OF assms(2)] if_False)
       (simp split: sum.split prod.split)
qed

lemma addToFavorites_cache_gate:
  assumes "says_favorited c u p" "p \<noteq> []" "Property_findById M p db = Inr property" "truthy property"
  shows "response (addToFavorites M u p notes tags c db)
           = failure 400 ''Property is already in your favorites''
       \<and> db_after (addToFavorites M u p notes tags c db) = db
       \<and> db_calls (addToFavorites M u p notes tags c db) = [Call_Property_findById p]
       \<and> cache_after (addToFavorites M u p notes tags c db) = c"
  using assms by (simp add: addToFavorites_def says_favorited_def)

lemma checkFavoriteStatus_hit:
  assumes "truthy (getCachedFavoriteStatus c u p)"
  shows "code (response (checkFavoriteStatus M u p c db)) = 200
       \<and> db_calls (checkFavoriteStatus M u p c db) = []
       \<and> db_after (checkFavoriteStatus M u p c db) = db"
  using assms by (simp add: checkFavoriteStatus_def)

lemma getPropertyById_hit:
  assumes "truthy (getCachedProperty c p)"
  shows "code (response (getPropertyById M p c db)) = 200
       \<and> db_calls (getPropertyById M p c db) = []
       \<and> db_after (getPropertyById M p c db) = db"
  using assms by (simp add: getPropertyById_def)
section \<open>Properties of the cache service\<close>

text \<open>
  C10. \<^verbatim>\<open>cacheProperty\<close> called with a property whose \<^verbatim>\<open>_id\<close> is missing (or
  otherwise falsy), and \<^verbatim>\<open>cacheUserProfile\<close> called with such a user, return at the guard
  \<^verbatim>\<open>if (!x._id) return\<close>: nothing is written and the client with its whole keyspace is
  left as it was.
\<close>

theorem cache_without_id_is_noop:
  "\<not> truthy (js_get property ''_id'') \<Longrightarrow> \<not> truthy (js_get user ''_id'') \<Longrightarrow>
   cacheProperty client property = client \<and> cacheUserProfile client user = client"
  by (simp add: cacheProperty_def cacheUserProfile_def)

theorem cache_without_id_is_noop_witness:
  "\<not> truthy (js_get (JObj [(''title'', JStr ''Flat'')]) ''_id'')
   \<and> \<not> truthy (js_get (JObj [(''username'', JStr ''ann''), (''_id'', JStr [])]) ''_id'')
   \<and> cacheProperty (Some \<lparr>status = Ready, entries = [(''property:p1'', \<lparr>payload = ''{}'', ttl = 900\<rparr>)]\<rparr>)
         (JObj [(''title'', JStr ''Flat'')])
       = Some \<lparr>status = Ready, entries = [(''property:p1'', \<lparr>payload = ''{}'', ttl = 900\<rparr>)]\<rparr>
   \<and> cacheUserProfile (Some \<lparr>status = Ready, entries = [(''property:p1'', \<lparr>payload = ''{}'', ttl = 900\<rparr>)]\<rparr>)
         (JObj [(''username'', JStr ''ann''), (''_id'', JStr [])])
       = Some \<lparr>status = Ready, entries = [(''property:p1'', \<lparr>payload = ''{}'', ttl = 900\<rparr>)]\<rparr>"
  using cache_without_id_is_noop [of "JObj [(''title'', JStr ''Flat'')]"
      "JObj [(''username'', JStr ''ann''), (''_id'', JStr [])]"
      "Some \<lparr>status = Ready, entries = [(''property:p1'', \<lparr>payload = ''{}'', ttl = 900\<rparr>)]\<rparr>"]
  by simp

text \<open>
  C9. On a ready client every cache write stores its entry with the expiry of its family:
  property 900 seconds, user profile 1800, search results 300, user-properties list 600,
  user-favorites list 600, favorite status 600.
\<close>

theorem cache_writes_use_family_ttl:
  assumes "ready client"
  shows "(truthy (js_get property ''_id'') \<longrightarrow>
            map_option ttl (cached (cacheProperty client property)
              (KEYS_PROPERTY (js_String (js_get property ''_id'')))) = Some 900)
       \<and> (truthy (js_get user ''_id'') \<longrightarrow>
            map_option ttl (cached (cacheUserProfile client user)
              (KEYS_USER_PROFILE (js_String (js_get user ''_id'')))) = Some 1800)
       \<and> map_option ttl (cached (cachePropertySearch client query results)
              (KEYS_PROPERTY_SEARCH (generateSearchKey query))) = Some 300
       \<and> map_option ttl (cached (cacheUserProperties client userId page limit results)
              (KEYS_USER_PROPERTIES userId (Some page) (Some limit))) = Some 600
       \<and> map_option ttl (cached (cacheUserFavorites client userId page limit results)
              (KEYS_USER_FAVORITES userId (Some page) (Some limit))) = Some 600
       \<and> map_option ttl (cached (cacheFavoriteStatus client userId propertyId st)
              (KEYS_FAVORITE_STATUS userId propertyId)) = Some 600"
  using assms
  by (simp add: cacheProperty_def cacheUserProfile_def cachePropertySearch_def
      cacheUserProperties_def cacheUserFavorites_def cacheFavoriteStatus_def cached_setCache
      TTL_PROPERTY_def TTL_USER_def TTL_SEARCH_def TTL_PROPERTY_LIST_def TTL_FAVORITES_def)

theorem cache_writes_use_family_ttl_witness:
  "ready (Some \<lparr>status = Ready, entries = []\<rparr>)
   \<and> truthy (js_get (JObj [(''_id'', JStr ''p1''), (''title'', JStr ''Flat'')]) ''_id'')
   \<and> truthy (js_get (JObj [(''_id'', JStr ''u1'')]) ''_id'')
   \<and> map_option ttl (cached (cacheProperty (Some \<lparr>status = Ready, entries = []\<rparr>)
          (JObj [(''_id'', JStr ''p1''), (''title'', JStr ''Flat'')])) ''property:p1'') = Some 900
   \<and> map_option ttl (cached (cacheUserProfile (Some \<lparr>status = Ready, entries = []\<rparr>)
          (JObj [(''_id'', JStr ''u1'')])) ''user:profile:u1'') = Some 1800
   \<and> map_option ttl (cached (cachePropertySearch (Some \<lparr>status = Ready, entries = []\<rparr>) []
          (JArr [])) ''search:properties:e30='') = Some 300
   \<and> map_option ttl (cached (cacheUserProperties (Some \<lparr>status = Ready, entries = []\<rparr>)
          ''u1'' 1 10 (JArr [])) ''user:properties:u1:1:10'') = Some 600
   \<and> map_option ttl (cached (cacheUserFavorites (Some \<lparr>status = Ready, entries = []\<rparr>)
          ''u1'' 1 10 (JArr [])) ''user:favorites:u1:1:10'') = Some 600
   \<and> map_option ttl (cached (cacheFavoriteStatus (Some \<lparr>status = Ready, entries = []\<rparr>)
          ''u1'' ''p1'' (JObj [(''isFavorited'', JBool True)])) ''favorite:status:u1:p1'') = Some 600"
proof -
  have r: "ready (Some \<lparr>status = Ready, entries = []\<rparr>)" by (simp add: ready_def)
  have k: "generateSearchKey [] = ''e30=''"
    by (simp add: generateSearchKey_def sortedQuery_def Object_keys_def b64_char_def)
  have s1: "show_int 1 = ''1''" by code_simp
  have s10: "show_int 10 = ''10''" by code_simp
  show ?thesis
    using r cache_writes_use_family_ttl [OF r,
        of "JObj [(''_id'', JStr ''p1''), (''title'', JStr ''Flat'')]" "JObj [(''_id'', JStr ''u1'')]"
           "[]" "JArr []" "''u1''" 1 10 "''p1''" "JObj [(''isFavorited'', JBool True)]"]
    by (simp add: k s1 s10 KEYS_PROPERTY_def KEYS_USER_PROFILE_def KEYS_PROPERTY_SEARCH_def
        KEYS_USER_PROPERTIES_def KEYS_USER_FAVORITES_def KEYS_FAVORITE_STATUS_def)
qed



text \<open>
  C7. When the text stored under a key cannot be decoded (\<^verbatim>\<open>JSON.parse\<close> throws), every
  \<^verbatim>\<open>getCached*\<close> that reads this key returns \<^verbatim>\<open>null\<close>: the \<^verbatim>\<open>SyntaxError\<close> is caught
  in \<^verbatim>\<open>getCache\<close>.
\<close>

theorem undecodable_entry_is_miss:
  "(undecodable client (KEYS_PROPERTY propertyId) \<longrightarrow> getCachedProperty client propertyId = JNull)
 \<and> (undecodable client (KEYS_USER_PROFILE userId) \<longrightarrow> getCachedUserProfile client userId = JNull)
 \<and> (undecodable client (KEYS_PROPERTY_SEARCH (generateSearchKey query)) \<longrightarrow>
       getCachedPropertySearch client query = JNull)
 \<and> (undecodable client (KEYS_USER_PROPERTIES userId (Some page) (Some limit)) \<longrightarrow>
       getCachedUserProperties client userId page limit = JNull)
 \<and> (undecodable client (KEYS_FAVORITE_STATUS userId propertyId) \<longrightarrow>
       getCachedFavoriteStatus client userId propertyId = JNull)
 \<and> (undecodable client (KEYS_USER_FAVORITES userId (Some page) (Some limit)) \<longrightarrow>
       getCachedUserFavorites client userId page limit = JNull)"
  by (simp add: getCachedProperty_def getCachedUserProfile_def getCachedPropertySearch_def
      getCachedUserProperties_def getCachedFavoriteStatus_def getCachedUserFavorites_def
      undecodable_getCache)

theorem undecodable_entry_is_miss_witness:
  "undecodable (Some \<lparr>status = Ready, entries =
       [(''property:p1'', \<lparr>payload = ''{oops'', ttl = 900\<rparr>),
        (''user:profile:u1'', \<lparr>payload = ''tru'', ttl = 1800\<rparr>),
        (''search:properties:e30='', \<lparr>payload = ''[1,]'', ttl = 300\<rparr>),
        (''user:properties:u1:1:10'', \<lparr>payload = ''01'', ttl = 600\<rparr>),
        (''favorite:status:u1:p1'', \<lparr>payload = ''{oops'', ttl = 600\<rparr>),
        (''user:favorites:u1:1:10'', \<lparr>payload = ''nul'', ttl = 600\<rparr>)]\<rparr>) ''property:p1''
   \<and> getCachedProperty (Some \<lparr>status = Ready, entries =
       [(''property:p1'', \<lparr>payload = ''{oops'', ttl = 900\<rparr>),
        (''user:profile:u1'', \<lparr>payload = ''tru'', ttl = 1800\<rparr>),
        (''search:properties:e30='', \<lparr>payload = ''[1,]'', ttl = 300\<rparr>),
        (''user:properties:u1:1:10'', \<lparr>payload = ''01'', ttl = 600\<rparr>),
        (''favorite:status:u1:p1'', \<lparr>payload = ''{oops'', ttl = 600\<rparr>),
        (''user:favorites:u1:1:10'', \<lparr>payload = ''nul'', ttl = 600\<rparr>)]\<rparr>) ''p1'' = JNull
   \<and> getCachedUserProfile (Some \<lparr>status = Ready, entries =
       [(''property:p1'', \<lparr>payload = ''{oops'', ttl = 900\<rparr>),
        (''user:profile:u1'', \<lparr>payload = ''tru'', ttl = 1800\<rparr>),
        (''search:properties:e30='', \<lparr>payload = ''[1,]'', ttl = 300\<rparr>),
        (''user:properties:u1:1:10'', \<lparr>payload = ''01'', ttl = 600\<rparr>),
        (''favorite:status:u1:p1'', \<lparr>payload = ''{oops'', ttl = 600\<rparr>),
        (''user:favorites:u1:1:10'', \<lparr>payload = ''nul'', ttl = 600\<rparr>)]\<rparr>) ''u1'' = JNull
   \<and> getCachedPropertySearch (Some \<lparr>status = Ready, entries =
       [(''property:p1'', \<lparr>payload = ''{oops'', ttl = 900\<rparr>),
        (''user:profile:u1'', \<lparr>payload = ''tru'', ttl = 1800\<rparr>),
        (''search:properties:e30='', \<lparr>payload = ''[1,]'', ttl = 300\<rparr>),
        (''user:properties:u1:1:10'', \<lparr>payload = ''01'', ttl = 600\<rparr>),
        (''favorite:status:u1:p1'', \<lparr>payload = ''{oops'', ttl = 600\<rparr>),
        (''user:favorites:u1:1:10'', \<lparr>payload = ''nul'', ttl = 600\<rparr>)]\<rparr>) [] = JNull
   \<and> getCachedUserProperties (Some \<lparr>status = Ready, entries =
       [(''property:p1'', \<lparr>payload = ''{oops'', ttl = 900\<rparr>),
        (''user:profile:u1'', \<lparr>payload = ''tru'', ttl = 1800\<rparr>),
        (''search:properties:e30='', \<lparr>payload = ''[1,]'', ttl = 300\<rparr>),
        (''user:properties:u1:1:10'', \<lparr>payload = ''01'', ttl = 600\<rparr>),
        (''favorite:status:u1:p1'', \<lparr>payload = ''{oops'', ttl = 600\<rparr>),
        (''user:favorites:u1:1:10'', \<lparr>payload = ''nul'', ttl = 600\<rparr>)]\<rparr>) ''u1'' 1 10 = JNull
   \<and> getCachedFavoriteStatus (Some \<lparr>status = Ready, entries =
       [(''property:p1'', \<lparr>payload = ''{oops'', ttl = 900\<rparr>),
        (''user:profile:u1'', \<lparr>payload = ''tru'', ttl = 1800\<rparr>),
        (''search:properties:e30='', \<lparr>payload = ''[1,]'', ttl = 300\<rparr>),
        (''user:properties:u1:1:10'', \<lparr>payload = ''01'', ttl = 600\<rparr>),
        (''favorite:status:u1:p1'', \<lparr>payload = ''{oops'', ttl = 600\<rparr>),
        (''user:favorites:u1:1:10'', \<lparr>payload = ''nul'', ttl = 600\<rparr>)]\<rparr>) ''u1'' ''p1'' = JNull
   \<and> getCachedUserFavorites (Some \<lparr>status = Ready, entries =
       [(''property:p1'', \<lparr>payload = ''{oops'', ttl = 900\<rparr>),
        (''user:profile:u1'', \<lparr>payload = ''tru'', ttl = 1800\<rparr>),
        (''search:properties:e30='', \<lparr>payload = ''[1,]'', ttl = 300\<rparr>),
        (''user:properties:u1:1:10'', \<lparr>payload = ''01'', ttl = 600\<rparr>),
        (''favorite:status:u1:p1'', \<lparr>payload = ''{oops'', ttl = 600\<rparr>),
        (''user:favorites:u1:1:10'', \<lparr>payload = ''nul'', ttl = 600\<rparr>)]\<rparr>) ''u1'' 1 10 = JNull"
proof -
  have g: "JSON_parse ''{oops'' = None" "JSON_parse ''tru'' = None" "JSON_parse ''[1,]'' = None"
    "JSON_parse ''01'' = None" "JSON_parse ''nul'' = None"
    by code_simp+
  have k: "generateSearchKey [] = ''e30=''"
    by (simp add: generateSearchKey_def sortedQuery_def Object_keys_def b64_char_def)
  have s: "show_int 1 = ''1''" "show_int 10 = ''10''" by code_simp+
  show ?thesis
    using undecodable_entry_is_miss [where client = "Some \<lparr>status = Ready, entries =
       [(''property:p1'', \<lparr>payload = ''{oops'', ttl = 900\<rparr>),
        (''user:profile:u1'', \<lparr>payload = ''tru'', ttl = 1800\<rparr>),
        (''search:properties:e30='', \<lparr>payload = ''[1,]'', ttl = 300\<rparr>),
        (''user:properties:u1:1:10'', \<lparr>payload = ''01'', ttl = 600\<rparr>),
        (''favorite:status:u1:p1'', \<lparr>payload = ''{oops'', ttl = 600\<rparr>),
        (''user:favorites:u1:1:10'', \<lparr>payload = ''nul'', ttl = 600\<rparr>)]\<rparr>"
      and propertyId = "''p1''" and userId = "''u1''" and query = "[]" and page = 1 and limit = 10]
    by (simp add: g k s undecodable_def cached_def KEYS_PROPERTY_def KEYS_USER_PROFILE_def
        KEYS_PROPERTY_SEARCH_def KEYS_USER_PROPERTIES_def KEYS_USER_FAVORITES_def
        KEYS_FAVORITE_STATUS_def)
qed







section \<open>Properties of the domain operations\<close>

text \<open>
  C1. After a successful \<^verbatim>\<open>addToFavorites(userA, propX)\<close> the next
  \<^verbatim>\<open>checkFavoriteStatus(userA, propX)\<close> is claimed to be a cache hit that reads nothing from
  the durable store. The code does the opposite: \<^verbatim>\<open>addToFavorites\<close> writes the status entry
  and then calls \<^verbatim>\<open>invalidateFavorites\<close>, which deletes every key
  \<^verbatim>\<open>favorite:status:<userId>:*\<close>, the entry just written among them. So on an available
  store, for every user id free of glob characters, after an add answered 201 the status
  entry is absent, \<^verbatim>\<open>getCachedFavoriteStatus\<close> is a miss, and the next
  \<^verbatim>\<open>checkFavoriteStatus\<close> calls \<^verbatim>\<open>Favorite.findOne\<close>.
\<close>

theorem favorite_status_lost_after_add:
  assumes "ready client" and "glob_free u"
    and "code (response (addToFavorites M u p notes tags client db)) = 201"
  shows "cached (cache_after (addToFavorites M u p notes tags client db)) (KEYS_FAVORITE_STATUS u p) = None
       \<and> getCachedFavoriteStatus (cache_after (addToFavorites M u p notes tags client db)) u p = JNull
       \<and> db_calls (checkFavoriteStatus M u p (cache_after (addToFavorites M u p notes tags client db))
                     (db_after (addToFavorites M u p notes tags client db)))
           = [Call_Favorite_findOne u p]"
proof -
  let ?c = "cache_after (addToFavorites M u p notes tags client db)"
  let ?d = "db_after (addToFavorites M u p notes tags client db)"
  obtain favorite where c: "?c = invalidateFavorites (cacheFavoriteStatus client u p (favorited_status favorite)) u"
    using addToFavorites_success [OF assms(3)] by blast
  have r: "ready ?c"
    using assms(1) by (simp add: c)
  have none: "cached ?c (KEYS_FAVORITE_STATUS u p) = None"
    by (rule status_entry_lost_after_add [OF assms])
  have miss: "getCachedFavoriteStatus ?c u p = JNull"
    using r none by (simp add: getCachedFavoriteStatus_def getCache_cached decode_entry_def)
  have "db_calls (checkFavoriteStatus M u p ?c ?d) = [Call_Favorite_findOne u p]"
    by (simp add: checkFavoriteStatus_def miss split: sum.split)
  with none miss show ?thesis by blast
qed

text \<open>
  The toggle of the specification on the in-memory store: first check, add, second check.
  The second check answers \<^verbatim>\<open>isFavorited: true\<close> with the new id, from the durable store.
\<close>

theorem favorite_status_lost_after_add_witness:
  "body (response toggle_first_check)
     = JObj [(''success'', JBool True), (''message'', JStr ''Favorite status retrieved''),
             (''isFavorited'', JBool False), (''favoriteId'', JNull)]
   \<and> getCachedFavoriteStatus (cache_after toggle_first_check) ''u1'' ''p1''
       = JObj [(''isFavorited'', JBool False)]
   \<and> ready (cache_after toggle_first_check) \<and> glob_free ''u1''
   \<and> code (response toggle_add) = 201
   \<and> cached (cache_after toggle_add) ''favorite:status:u1:p1'' = None
   \<and> getCachedFavoriteStatus (cache_after toggle_add) ''u1'' ''p1'' = JNull
   \<and> db_calls toggle_second_check = [Call_Favorite_findOne ''u1'' ''p1'']
   \<and> body (response toggle_second_check)
       = JObj [(''success'', JBool True), (''message'', JStr ''Favorite status retrieved''),
               (''isFavorited'', JBool True), (''favoriteId'', JStr ''f0'')]"
proof -
  have b1: "body (response toggle_first_check)
     = JObj [(''success'', JBool True), (''message'', JStr ''Favorite status retrieved''),
             (''isFavorited'', JBool False), (''favoriteId'', JNull)]"
    by code_simp
  have s1: "getCachedFavoriteStatus (cache_after toggle_first_check) ''u1'' ''p1''
       = JObj [(''isFavorited'', JBool False)]"
    by code_simp
  have r: "ready (cache_after toggle_first_check)" by code_simp
  have g: "glob_free ''u1''" by code_simp
  have ok: "code (response toggle_add) = 201" by code_simp
  have b2: "body (response toggle_second_check)
       = JObj [(''success'', JBool True), (''message'', JStr ''Favorite status retrieved''),
               (''isFavorited'', JBool True), (''favoriteId'', JStr ''f0'')]"
    by code_simp
  have k: "KEYS_FAVORITE_STATUS ''u1'' ''p1'' = ''favorite:status:u1:p1''"
    by (simp add: KEYS_FAVORITE_STATUS_def)
  note t = favorite_status_lost_after_add [OF r g, of mem_models "''p1''" JUndefined JUndefined
      "db_after toggle_first_check", folded toggle_add_def, OF ok, folded toggle_second_check_def,
      unfolded k]
  show ?thesis
    using b1 s1 r g ok t b2 by blast
qed



text \<open>
  C5 (as stated). A favorite update of notes and tags leaves every favorite-status entry
  unchanged. This fails: the update of favorite \<^verbatim>\<open>f0\<close> of user \<^verbatim>\<open>u1\<close> is answered 200 and
  the status entry \<^verbatim>\<open>favorite:status:u1:p1\<close>, present before, is gone.
\<close>

theorem favorite_update_keeps_status_counterexample:
  "code (response update_favorite_run) = 200
   \<and> getCachedFavoriteStatus status_cache ''u1'' ''p1''
       = JObj [(''isFavorited'', JBool True), (''favoriteId'', JStr ''f0'')]
   \<and> cached (cache_after update_favorite_run) ''favorite:status:u1:p1'' = None
   \<and> getCachedFavoriteStatus (cache_after update_favorite_run) ''u1'' ''p1'' = JNull"
  by code_simp

text \<open>
  C5 (amended). On an available store a favorite update answered 200 deletes the keys
  matching \<^verbatim>\<open>user:favorites:<userId>:*\<close> and the keys matching
  \<^verbatim>\<open>favorite:status:<userId>:*\<close> (the keys under these prefixes when the user id is free
  of glob characters) and leaves every other entry as it was; it writes no entry. Whatever
  the answer, every key outside \<^verbatim>\<open>user:favorites:\<close> and \<^verbatim>\<open>favorite:status:\<close> keeps its
  entry, and an update that is not answered 200 leaves the cache unchanged.
\<close>

theorem favorite_update_invalidation:
  assumes "ready client"
  shows "(code (response (updateFavorite M u i notes tags client db)) = 200 \<longrightarrow>
            cached (cache_after (updateFavorite M u i notes tags client db)) k
              = (if glob_match (''user:favorites:'' @ u @ '':*'') k
                    \<or> glob_match (''favorite:status:'' @ u @ '':*'') k
                 then None else cached client k))
       \<and> (code (response (updateFavorite M u i notes tags client db)) = 200 \<and> glob_free u \<longrightarrow>
            cached (cache_after (updateFavorite M u i notes tags client db)) k
              = (if prefix (''user:favorites:'' @ u @ '':'') k
                    \<or> prefix (''favorite:status:'' @ u @ '':'') k
                 then None else cached client k))
       \<and> (\<not> prefix ''user:favorites:'' k \<and> \<not> prefix ''favorite:status:'' k \<longrightarrow>
            cached (cache_after (updateFavorite M u i notes tags client db)) k = cached client k)
       \<and> (code (response (updateFavorite M u i notes tags client db)) \<noteq> 200 \<longrightarrow>
            cache_after (updateFavorite M u i notes tags client db) = client)"
proof (cases "code (response (updateFavorite M u i notes tags client db)) = 200")
  case False
  then show ?thesis by (simp add: updateFavorite_failure)
next
  case True
  have c: "cached (cache_after (updateFavorite M u i notes tags client db)) k
           = (if glob_match (''user:favorites:'' @ u @ '':*'') k
                 \<or> glob_match (''favorite:status:'' @ u @ '':*'') k
              then None else cached client k)"
    using assms updateFavorite_success [OF True] by (simp only: cached_invalidateFavorites)
  have f: "cached (cache_after (updateFavorite M u i notes tags client db)) k
           = (if prefix (''user:favorites:'' @ u @ '':'') k
                 \<or> prefix (''favorite:status:'' @ u @ '':'') k
              then None else cached client k)" if "glob_free u"
    unfolding c using user_favorites_pattern [OF that, of k] favorite_status_pattern [OF that, of k]
    by (simp only:)
  have n: "cached (cache_after (updateFavorite M u i notes tags client db)) k = cached client k"
    if "\<not> prefix ''user:favorites:'' k" "\<not> prefix ''favorite:status:'' k"
  proof -
    have "\<not> glob_match (''user:favorites:'' @ (u @ '':*'')) k"
      using that(1) pattern_needs_prefix(2) by blast
    moreover have "\<not> glob_match (''favorite:status:'' @ (u @ '':*'')) k"
      using that(2) pattern_needs_prefix(3) by blast
    ultimately show ?thesis unfolding c by (simp only: if_False simp_thms)
  qed
  show ?thesis using True c f n by blast
qed

theorem favorite_update_invalidation_witness:
  "ready status_cache \<and> glob_free ''u1'' \<and> code (response update_favorite_run) = 200
   \<and> cached (cache_after update_favorite_run) ''favorite:status:u1:p1'' = None
   \<and> cached (cache_after update_favorite_run) ''user:favorites:u1:1:10'' = None
   \<and> \<not> prefix ''user:favorites:'' ''property:p1'' \<and> \<not> prefix ''favorite:status:'' ''property:p1''
   \<and> cached status_cache ''property:p1'' \<noteq> None
   \<and> cached (cache_after update_favorite_run) ''property:p1'' = cached status_cache ''property:p1''
   \<and> code (response (updateFavorite mem_models ''u1'' ''nope'' (JStr ''nice'') (JArr []) status_cache
                       example_db_favorited)) \<noteq> 200
   \<and> cache_after (updateFavorite mem_models ''u1'' ''nope'' (JStr ''nice'') (JArr []) status_cache
                    example_db_favorited) = status_cache"
proof -
  have r: "ready status_cache" by code_simp
  have g: "glob_free ''u1''" by code_simp
  have ok: "code (response (updateFavorite mem_models ''u1'' ''f0'' (JStr ''nice'') (JArr [JStr ''a''])
                    status_cache example_db_favorited)) = 200"
    by code_simp
  have p1: "prefix (''favorite:status:'' @ ''u1'' @ '':'') ''favorite:status:u1:p1''" by simp
  have p2: "prefix (''user:favorites:'' @ ''u1'' @ '':'') ''user:favorites:u1:1:10''" by simp
  have n: "\<not> prefix ''user:favorites:'' ''property:p1''" "\<not> prefix ''favorite:status:'' ''property:p1''"
    by simp_all
  have e: "cached status_cache ''property:p1'' \<noteq> None" by code_simp
  have bad: "code (response (updateFavorite mem_models ''u1'' ''nope'' (JStr ''nice'') (JArr [])
                     status_cache example_db_favorited)) \<noteq> 200"
    by code_simp
  note t = favorite_update_invalidation [OF r, of mem_models "''u1''" "''f0''" "JStr ''nice''"
      "JArr [JStr ''a'']" example_db_favorited]
  have "cached (cache_after update_favorite_run) ''favorite:status:u1:p1''
        = (if prefix (''user:favorites:'' @ ''u1'' @ '':'') ''favorite:status:u1:p1''
              \<or> prefix (''favorite:status:'' @ ''u1'' @ '':'') ''favorite:status:u1:p1''
           then None else cached status_cache ''favorite:status:u1:p1'')"
    using t [of "''favorite:status:u1:p1''"] ok g unfolding update_favorite_run_def by blast
  then have a: "cached (cache_after update_favorite_run) ''favorite:status:u1:p1'' = None"
    by simp
  have "cached (cache_after update_favorite_run) ''user:favorites:u1:1:10''
        = (if prefix (''user:favorites:'' @ ''u1'' @ '':'') ''user:favorites:u1:1:10''
              \<or> prefix (''favorite:status:'' @ ''u1'' @ '':'') ''user:favorites:u1:1:10''
           then None else cached status_cache ''user:favorites:u1:1:10'')"
    using t [of "''user:favorites:u1:1:10''"] ok g unfolding update_favorite_run_def by blast
  then have b: "cached (cache_after update_favorite_run) ''user:favorites:u1:1:10'' = None"
    by simp
  have c: "cached (cache_after update_favorite_run) ''property:p1'' = cached status_cache ''property:p1''"
    using t [of "''property:p1''"] n unfolding update_favorite_run_def by blast
  have d: "cache_after (updateFavorite mem_models ''u1'' ''nope'' (JStr ''nice'') (JArr []) status_cache
                    example_db_favorited) = status_cache"
    using favorite_update_invalidation [OF r, of mem_models "''u1''" "''nope''" "JStr ''nice''"
      "JArr []" example_db_favorited] bad by blast
  show ?thesis
    using r g ok a b n e c bad d unfolding update_favorite_run_def by blast
qed
end
